theory Spec2Isabelle
  imports Complex_Main
begin

section \<open>The UPS power monitor (charts/power-monitor/power_monitor.py)\<close>

text \<open>
  A shallow embedding of the class \<open>PowerMonitor\<close>. The mutable fields of the object are
  a record that every method takes and returns; the collaborators (Home Assistant, the
  Kubernetes API, \<open>kubectl\<close>, \<open>ssh\<close>) are a record of oracles that say how each
  external call ends; every exception handler of the source is a branch of the model.
  Logging and sleeping are left out.
\<close>

subsection \<open>Strings\<close>

text \<open>
  Strings are ASCII text. \<open>lower\<close> is \<open>str.lower\<close>, \<open>strip\<close> is \<open>str.strip\<close> without
  argument (it removes the white space of both ends).
\<close>

definition lower_char :: "char \<Rightarrow> char" where
  "lower_char c =
     (case map_of (zip ''ABCDEFGHIJKLMNOPQRSTUVWXYZ'' ''abcdefghijklmnopqrstuvwxyz'') c of
        None \<Rightarrow> c
      | Some d \<Rightarrow> d)"

definition lower :: "string \<Rightarrow> string" where
  "lower s = map lower_char s"

definition is_space :: "char \<Rightarrow> bool" where
  "is_space c \<longleftrightarrow>
     c \<in> set [CHR 0x09, CHR 0x0A, CHR 0x0B, CHR 0x0C, CHR 0x0D,
              CHR 0x1C, CHR 0x1D, CHR 0x1E, CHR 0x1F, CHR 0x20]"

definition strip :: "string \<Rightarrow> string" where
  "strip s = rev (dropWhile is_space (rev (dropWhile is_space s)))"

subsection \<open>Configuration\<close>

text \<open>
  The fields that \<open>__init__\<close> reads from the environment and that the monitoring logic
  uses. The two delays are \<open>int(os.getenv(...))\<close>, in seconds (defaults 180 and 420);
  \<open>test_mode\<close> is stored in lower case.
\<close>

record config =
  shutdown_pi5_01_delay :: int
  shutdown_others_delay :: int
  critical_node :: string
  priority_shutdown_nodes :: "string list"
  secondary_shutdown_nodes :: "string list"
  dry_run :: bool
  test_mode :: string
  skip_shutdown :: bool

subsection \<open>The collaborators\<close>

text \<open>
  An actuator invocation is recorded as an event carrying the node name it was called
  with.
\<close>

datatype event = Cordon string | Uncordon string | Drain string | Shutdown string

text \<open>\<open>subprocess.run\<close> either raises (time-out, missing binary) or returns an exit status.\<close>

datatype run_result = RunRaised | Completed int

text \<open>
  A node as \<open>list_node\<close> reports it: \<open>metadata.name\<close>, \<open>status.conditions\<close> (a list of
  (type, status) pairs, or \<open>None\<close>) and \<open>spec.unschedulable\<close> (a boolean, or \<open>None\<close>).
\<close>

record k8s_node =
  node_name :: string
  conditions :: "(string \<times> string) list option"
  unschedulable :: "bool option"

text \<open>
  The outcome of every external call. The index is the number of actuator invocations
  made before the call, so successive calls may end differently.
  \<^item> \<open>patch_node\<close>: \<open>True\<close> when the API call returns, \<open>False\<close> when it raises;
  \<^item> \<open>kubectl_drain\<close>, \<open>ssh_shutdown\<close>: how the subprocess ends;
  \<^item> \<open>read_node\<close>: the (type, address) pairs of \<open>node.status.addresses\<close>, \<open>None\<close> when
    the call or the iteration raises;
  \<^item> \<open>list_node\<close>: the items of the node list, \<open>None\<close> when the call raises.
\<close>

record world =
  patch_node :: "nat \<Rightarrow> bool"
  kubectl_drain :: "nat \<Rightarrow> run_result"
  read_node :: "nat \<Rightarrow> (string \<times> string) list option"
  ssh_shutdown :: "nat \<Rightarrow> run_result"
  list_node :: "nat \<Rightarrow> k8s_node list option"

subsection \<open>State\<close>

text \<open>
  The state-tracking fields of \<open>PowerMonitor\<close>; \<open>power_outage_start\<close> is a time stamp in
  seconds. \<open>calls\<close> is the history of actuator invocations, oldest first: it is not a
  field of the source, it records what the source does.
\<close>

record monitor =
  power_outage_start :: "rat option"
  shutdown_initiated :: bool
  nodes_shutdown :: "string set"
  calls :: "event list"

definition new_calls :: "monitor \<Rightarrow> monitor \<Rightarrow> event list" where
  "new_calls s s' = drop (length (calls s)) (calls s')"

subsection \<open>Sensor\<close>

text \<open>
  What \<open>float(state)\<close> gives when it does not raise. The parser itself is the Python
  built-in; the model takes it as a parameter \<open>pyfloat\<close> (\<open>None\<close> is \<open>ValueError\<close>).
\<close>

datatype pyfloat = Finite rat | PosInf | NegInf | NaN

fun gt_zero :: "pyfloat \<Rightarrow> bool" where
  "gt_zero (Finite r) = (r > 0)"
| "gt_zero PosInf = True"
| "gt_zero NegInf = False"
| "gt_zero NaN = False"

text \<open>
  \<open>get_power_status\<close> returns the JSON object of the sensor, or \<open>None\<close> when the request
  fails. The object is an association list from its keys to JSON values.
\<close>

datatype json = JString string | JNumber rat | JBool bool | JNull | JCompound

datatype error = AttributeError

text \<open>
  \<open>sensor_state\<close> is \<open>sensor_data.get('state', '').lower()\<close>: a missing key gives the
  empty string, and a value that is not a string has no method \<open>lower\<close>. The call stands
  before the \<open>try\<close> of \<open>is_power_available\<close>, so the exception leaves the function.
\<close>

definition sensor_state :: "(string \<times> json) list \<Rightarrow> error + string" where
  "sensor_state d =
     (case map_of d ''state'' of
        None \<Rightarrow> Inr (lower [])
      | Some (JString v) \<Rightarrow> Inr (lower v)
      | Some _ \<Rightarrow> Inl AttributeError)"

definition is_power_available ::
  "(string \<Rightarrow> pyfloat option) \<Rightarrow> config \<Rightarrow> (string \<times> json) list option \<Rightarrow> error + bool" where
  "is_power_available pyfloat cfg sensor_data =
     (if test_mode cfg = ''simulate_outage'' then Inr False
      else case sensor_data of
        None \<Rightarrow> Inr False
      | Some d \<Rightarrow>
          if d = [] then Inr False
          else
            (case sensor_state d of
               Inl e \<Rightarrow> Inl e
             | Inr state \<Rightarrow>
                 if state \<in> set [''unavailable'', ''unknown'', ''none''] then Inr False
                 else (case pyfloat state of
                         Some reading \<Rightarrow> Inr (gt_zero reading)
                       | None \<Rightarrow> Inr False)))"

subsection \<open>Actuators\<close>

definition cordon_node :: "config \<Rightarrow> world \<Rightarrow> string \<Rightarrow> monitor \<Rightarrow> bool \<times> monitor" where
  "cordon_node cfg w name s =
     (let s' = s\<lparr>calls := calls s @ [Cordon name]\<rparr> in
      if dry_run cfg then (True, s')
      else (patch_node w (length (calls s)), s'))"

definition uncordon_node :: "config \<Rightarrow> world \<Rightarrow> string \<Rightarrow> monitor \<Rightarrow> bool \<times> monitor" where
  "uncordon_node cfg w name s =
     (let s' = s\<lparr>calls := calls s @ [Uncordon name]\<rparr> in
      if dry_run cfg then (True, s')
      else (patch_node w (length (calls s)), s'))"

definition drain_node :: "config \<Rightarrow> world \<Rightarrow> string \<Rightarrow> monitor \<Rightarrow> bool \<times> monitor" where
  "drain_node cfg w name s =
     (let s' = s\<lparr>calls := calls s @ [Drain name]\<rparr> in
      if dry_run cfg then (True, s')
      else (case kubectl_drain w (length (calls s)) of
              Completed rc \<Rightarrow> (rc = 0, s')
            | RunRaised \<Rightarrow> (False, s')))"

text \<open>The address of the first entry of type \<open>InternalIP\<close> (the loop breaks there).\<close>

fun internal_ip :: "(string \<times> string) list \<Rightarrow> string option" where
  "internal_ip [] = None"
| "internal_ip ((ty, addr) # rest) =
     (if ty = ''InternalIP'' then Some addr else internal_ip rest)"

definition shutdown_node :: "config \<Rightarrow> world \<Rightarrow> string \<Rightarrow> monitor \<Rightarrow> bool \<times> monitor" where
  "shutdown_node cfg w name s =
     (let s' = s\<lparr>calls := calls s @ [Shutdown name]\<rparr>;
          marked = s'\<lparr>nodes_shutdown := insert name (nodes_shutdown s')\<rparr> in
      if dry_run cfg \<or> skip_shutdown cfg then (True, marked)
      else (case read_node w (length (calls s)) of
              None \<Rightarrow> (False, s')
            | Some addresses \<Rightarrow>
                (case internal_ip addresses of
                   None \<Rightarrow> (False, s')
                 | Some node_ip \<Rightarrow>
                     if node_ip = [] then (False, s')
                     else (case ssh_shutdown w (length (calls s)) of
                             RunRaised \<Rightarrow> (False, s')
                           | Completed rc \<Rightarrow> (True, marked)))))"

subsection \<open>The shutdown sequence\<close>

text \<open>
  The five phases of \<open>execute_shutdown_sequence\<close>. \<open>guard_met\<close> is the comparison of the
  elapsed time that opens each phase; phase 1 also tests the flag \<open>shutdown_initiated\<close>.
  Each loop is a \<open>fold\<close> of its body over the configured list.
\<close>

datatype phase = Phase1 | Phase2 | Phase3 | Phase4 | Phase5

fun guard_met :: "config \<Rightarrow> phase \<Rightarrow> rat \<Rightarrow> bool" where
  "guard_met cfg Phase1 elapsed_time = (elapsed_time \<ge> 30)"
| "guard_met cfg Phase2 elapsed_time = (elapsed_time \<ge> 60)"
| "guard_met cfg Phase3 elapsed_time = (elapsed_time \<ge> of_int (shutdown_pi5_01_delay cfg))"
| "guard_met cfg Phase4 elapsed_time = (elapsed_time \<ge> 300)"
| "guard_met cfg Phase5 elapsed_time = (elapsed_time \<ge> of_int (shutdown_others_delay cfg))"

definition cordon_priority :: "config \<Rightarrow> world \<Rightarrow> string \<Rightarrow> monitor \<Rightarrow> monitor" where
  "cordon_priority cfg w n s =
     (let node = strip n in
      if node = critical_node cfg then s
      else snd (cordon_node cfg w node s))"

definition drain_priority :: "config \<Rightarrow> world \<Rightarrow> string \<Rightarrow> monitor \<Rightarrow> monitor" where
  "drain_priority cfg w n s =
     (let node = strip n in
      if node = critical_node cfg \<or> node \<in> nodes_shutdown s then s
      else snd (drain_node cfg w node s))"

definition shutdown_listed :: "config \<Rightarrow> world \<Rightarrow> string \<Rightarrow> monitor \<Rightarrow> monitor" where
  "shutdown_listed cfg w n s =
     (let node = strip n in
      if node = critical_node cfg \<or> node \<in> nodes_shutdown s then s
      else snd (shutdown_node cfg w node s))"

definition cordon_drain_secondary :: "config \<Rightarrow> world \<Rightarrow> string \<Rightarrow> monitor \<Rightarrow> monitor" where
  "cordon_drain_secondary cfg w n s =
     (let node = strip n in
      if node = critical_node cfg \<or> node \<in> nodes_shutdown s then s
      else snd (drain_node cfg w node (snd (cordon_node cfg w node s))))"

definition phase1 :: "config \<Rightarrow> world \<Rightarrow> rat \<Rightarrow> monitor \<Rightarrow> monitor" where
  "phase1 cfg w elapsed_time s =
     (if guard_met cfg Phase1 elapsed_time \<and> \<not> shutdown_initiated s
      then fold (cordon_priority cfg w) (priority_shutdown_nodes cfg)
             (s\<lparr>shutdown_initiated := True\<rparr>)
      else s)"

definition phase2 :: "config \<Rightarrow> world \<Rightarrow> rat \<Rightarrow> monitor \<Rightarrow> monitor" where
  "phase2 cfg w elapsed_time s =
     (if guard_met cfg Phase2 elapsed_time
      then fold (drain_priority cfg w) (priority_shutdown_nodes cfg) s
      else s)"

definition phase3 :: "config \<Rightarrow> world \<Rightarrow> rat \<Rightarrow> monitor \<Rightarrow> monitor" where
  "phase3 cfg w elapsed_time s =
     (if guard_met cfg Phase3 elapsed_time
      then fold (shutdown_listed cfg w) (priority_shutdown_nodes cfg) s
      else s)"

definition phase4 :: "config \<Rightarrow> world \<Rightarrow> rat \<Rightarrow> monitor \<Rightarrow> monitor" where
  "phase4 cfg w elapsed_time s =
     (if guard_met cfg Phase4 elapsed_time
      then fold (cordon_drain_secondary cfg w) (secondary_shutdown_nodes cfg) s
      else s)"

definition phase5 :: "config \<Rightarrow> world \<Rightarrow> rat \<Rightarrow> monitor \<Rightarrow> monitor" where
  "phase5 cfg w elapsed_time s =
     (if guard_met cfg Phase5 elapsed_time
      then fold (shutdown_listed cfg w) (secondary_shutdown_nodes cfg) s
      else s)"

definition execute_shutdown_sequence :: "config \<Rightarrow> world \<Rightarrow> rat \<Rightarrow> monitor \<Rightarrow> monitor" where
  "execute_shutdown_sequence cfg w elapsed_time s =
     phase5 cfg w elapsed_time
       (phase4 cfg w elapsed_time
         (phase3 cfg w elapsed_time
           (phase2 cfg w elapsed_time
             (phase1 cfg w elapsed_time s))))"

text \<open>The polls of one outage: the sequence is run once for each elapsed time, in order.\<close>

definition polls :: "config \<Rightarrow> world \<Rightarrow> rat list \<Rightarrow> monitor \<Rightarrow> monitor" where
  "polls cfg w es s = fold (execute_shutdown_sequence cfg w) es s"

subsection \<open>Recovery\<close>

definition is_ready :: "(string \<times> string) list \<Rightarrow> bool" where
  "is_ready conds = list_ex (\<lambda>(ty, st). ty = ''Ready'' \<and> st = ''True'') conds"

text \<open>
  The loop over the listed nodes. Iterating over absent conditions raises; the handler
  around the loop catches it, so the remaining nodes are not visited.
\<close>

fun restore_loop :: "config \<Rightarrow> world \<Rightarrow> k8s_node list \<Rightarrow> monitor \<Rightarrow> monitor" where
  "restore_loop cfg w [] s = s"
| "restore_loop cfg w (node # rest) s =
     (if node_name node = critical_node cfg then restore_loop cfg w rest s
      else (case conditions node of
              None \<Rightarrow> s
            | Some conds \<Rightarrow>
                if is_ready conds \<and> unschedulable node = Some True
                then restore_loop cfg w rest (snd (uncordon_node cfg w (node_name node) s))
                else restore_loop cfg w rest s))"

definition reset_state :: "monitor \<Rightarrow> monitor" where
  "reset_state s = s\<lparr>power_outage_start := None, shutdown_initiated := False, nodes_shutdown := {}\<rparr>"

definition restore_power_procedures :: "config \<Rightarrow> world \<Rightarrow> monitor \<Rightarrow> monitor" where
  "restore_power_procedures cfg w s =
     reset_state
       (case list_node w (length (calls s)) of
          None \<Rightarrow> s
        | Some items \<Rightarrow> restore_loop cfg w items s)"

subsection \<open>One iteration of the monitoring loop\<close>

text \<open>
  What one iteration of \<open>run\<close> reads: the sensor, and the clock (\<open>datetime.now()\<close>) where
  an outage is first seen and where the elapsed time is computed. An exception inside the
  iteration is caught by the handler of the loop, which logs it and sleeps: the state is
  left as it was.
\<close>

record tick_input =
  sensor_data :: "(string \<times> json) list option"
  now_onset :: rat
  now_elapsed :: rat

definition tick ::
  "(string \<Rightarrow> pyfloat option) \<Rightarrow> config \<Rightarrow> world \<Rightarrow> tick_input \<Rightarrow> monitor \<Rightarrow> monitor" where
  "tick pyfloat cfg w inp s =
     (case is_power_available pyfloat cfg (sensor_data inp) of
        Inl e \<Rightarrow> s
      | Inr power_available \<Rightarrow>
          if power_available then
            (case power_outage_start s of
               None \<Rightarrow> s
             | Some t0 \<Rightarrow>
                 if shutdown_initiated s \<or> nodes_shutdown s \<noteq> {}
                 then restore_power_procedures cfg w s
                 else s\<lparr>power_outage_start := None, shutdown_initiated := False\<rparr>)
          else
            (let t0 = (case power_outage_start s of None \<Rightarrow> now_onset inp | Some t \<Rightarrow> t)
             in execute_shutdown_sequence cfg w (now_elapsed inp - t0)
                  (s\<lparr>power_outage_start := Some t0\<rparr>)))"

definition run ::
  "(string \<Rightarrow> pyfloat option) \<Rightarrow> config \<Rightarrow> world \<Rightarrow> tick_input list \<Rightarrow> monitor \<Rightarrow> monitor" where
  "run pyfloat cfg w inps s = fold (tick pyfloat cfg w) inps s"

subsection \<open>Notions used to state the properties\<close>

text \<open>
  \<open>poweroff_completes w i\<close>: the \<open>try\<close> block of \<open>shutdown_node\<close> reaches its \<open>return True\<close>
  at call \<open>i\<close> (the node has a non-empty internal address and \<open>ssh\<close> returns, with any
  exit status). \<open>listed cfg xs\<close>: the names a loop over \<open>xs\<close> does not skip as critical.
  \<open>poll_calls\<close>: the invocations of one run of the sequence, given the nodes \<open>ms3\<close>, \<open>ms5\<close>
  whose power-off phases 3 and 5 attempt and the set \<open>D3\<close> that phase 3 records as shut down.
\<close>

definition poweroff_completes :: "world \<Rightarrow> nat \<Rightarrow> bool" where
  "poweroff_completes w i =
     (case read_node w i of
        None \<Rightarrow> False
      | Some addresses \<Rightarrow>
          (case internal_ip addresses of
             None \<Rightarrow> False
           | Some node_ip \<Rightarrow> node_ip \<noteq> [] \<and> ssh_shutdown w i \<noteq> RunRaised))"

definition always_succeeds :: "config \<Rightarrow> world \<Rightarrow> bool" where
  "always_succeeds cfg w \<longleftrightarrow> dry_run cfg \<or> skip_shutdown cfg \<or> (\<forall>i. poweroff_completes w i)"

definition listed :: "config \<Rightarrow> string list \<Rightarrow> string list" where
  "listed cfg xs = filter (\<lambda>m. m \<noteq> critical_node cfg) (map strip xs)"

definition poll_calls ::
  "config \<Rightarrow> rat \<Rightarrow> monitor \<Rightarrow> string list \<Rightarrow> string set \<Rightarrow> string list \<Rightarrow> event list" where
  "poll_calls cfg e s ms3 D3 ms5 =
     (if guard_met cfg Phase1 e \<and> \<not> shutdown_initiated s
      then map Cordon (listed cfg (priority_shutdown_nodes cfg)) else []) @
     (if guard_met cfg Phase2 e
      then map Drain (filter (\<lambda>m. m \<notin> nodes_shutdown s) (listed cfg (priority_shutdown_nodes cfg)))
      else []) @
     map Shutdown ms3 @
     (if guard_met cfg Phase4 e
      then concat (map (\<lambda>m. [Cordon m, Drain m])
             (filter (\<lambda>m. m \<notin> nodes_shutdown s \<union> D3) (listed cfg (secondary_shutdown_nodes cfg))))
      else []) @
     map Shutdown ms5"

text \<open>
  \<open>allowed cfg s ev\<close>: what an invocation made from state \<open>s\<close> on can be; \<open>advances\<close>:
  how a state evolves while the outage lasts.
\<close>

fun event_node :: "event \<Rightarrow> string" where
  "event_node (Cordon m) = m"
| "event_node (Uncordon m) = m"
| "event_node (Drain m) = m"
| "event_node (Shutdown m) = m"

fun allowed :: "config \<Rightarrow> monitor \<Rightarrow> event \<Rightarrow> bool" where
  "allowed cfg s (Cordon m) =
     (m \<noteq> critical_node cfg \<and>
      (shutdown_initiated s \<longrightarrow>
         m \<in> set (listed cfg (secondary_shutdown_nodes cfg)) \<and> m \<notin> nodes_shutdown s))"
| "allowed cfg s (Drain m) = (m \<noteq> critical_node cfg \<and> m \<notin> nodes_shutdown s)"
| "allowed cfg s (Shutdown m) = (m \<noteq> critical_node cfg \<and> m \<notin> nodes_shutdown s)"
| "allowed cfg s (Uncordon m) = False"

definition advances :: "config \<Rightarrow> monitor \<Rightarrow> monitor \<Rightarrow> bool" where
  "advances cfg s s' \<longleftrightarrow>
     nodes_shutdown s \<subseteq> nodes_shutdown s' \<and>
     (shutdown_initiated s \<longrightarrow> shutdown_initiated s') \<and>
     power_outage_start s' = power_outage_start s \<and>
     (\<exists>evs. calls s' = calls s @ evs \<and> (\<forall>ev \<in> set evs. allowed cfg s ev))"

definition spares :: "config \<Rightarrow> monitor \<Rightarrow> monitor \<Rightarrow> bool" where
  "spares cfg s s' \<longleftrightarrow>
     (\<exists>evs. calls s' = calls s @ evs \<and> (\<forall>ev \<in> set evs. event_node ev \<noteq> critical_node cfg))"

text \<open>
  The nodes the recovery loop examines (it stops at the first non-critical node without
  conditions), and the nodes it is meant to uncordon: not critical, reported ready,
  scheduling disabled.
\<close>

definition examined :: "config \<Rightarrow> k8s_node list \<Rightarrow> k8s_node list" where
  "examined cfg items =
     takeWhile (\<lambda>nd. node_name nd = critical_node cfg \<or> conditions nd \<noteq> None) items"

definition recovered :: "config \<Rightarrow> k8s_node \<Rightarrow> bool" where
  "recovered cfg nd \<longleftrightarrow>
     node_name nd \<noteq> critical_node cfg \<and>
     (case conditions nd of None \<Rightarrow> False | Some conds \<Rightarrow> is_ready conds) \<and>
     unschedulable nd = Some True"

subsection \<open>Concrete configurations and collaborators\<close>

text \<open>
  The configuration and the state that \<open>__init__\<close> builds when only \<open>HA_TOKEN\<close> is set, and
  a collaborator whose every call succeeds and that lists no node.
\<close>

definition default_config :: config where
  "default_config =
     \<lparr>shutdown_pi5_01_delay = 180, shutdown_others_delay = 420,
      critical_node = ''pi4-02'',
      priority_shutdown_nodes = [''pi5-01''],
      secondary_shutdown_nodes = [''pi4-01'', ''pi5-02''],
      dry_run = False, test_mode = ''none'', skip_shutdown = False\<rparr>"

definition initial :: monitor where
  "initial =
     \<lparr>power_outage_start = None, shutdown_initiated = False, nodes_shutdown = {}, calls = []\<rparr>"

definition calm :: world where
  "calm =
     \<lparr>patch_node = (\<lambda>i. True),
      kubectl_drain = (\<lambda>i. Completed 0),
      read_node = (\<lambda>i. Some [(''Hostname'', ''node''), (''InternalIP'', ''10.0.0.7'')]),
      ssh_shutdown = (\<lambda>i. Completed 0),
      list_node = (\<lambda>i. Some [])\<rparr>"

text \<open>The phases whose guard is met at an elapsed time.\<close>

definition due_phases :: "config \<Rightarrow> rat \<Rightarrow> phase list" where
  "due_phases cfg e = filter (\<lambda>ph. guard_met cfg ph e) [Phase1, Phase2, Phase3, Phase4, Phase5]"

text \<open>
  \<open>preceded before after seen evs\<close>: every invocation \<open>after m\<close> in \<open>evs\<close> comes later
  than an invocation \<open>before m\<close> for the same node, in \<open>evs\<close> or in the earlier history
  \<open>seen\<close>.
\<close>

fun preceded ::
  "(string \<Rightarrow> event) \<Rightarrow> (string \<Rightarrow> event) \<Rightarrow> event list \<Rightarrow> event list \<Rightarrow> bool" where
  "preceded before after seen [] = True"
| "preceded before after seen (ev # evs) =
     ((ev = after (event_node ev) \<longrightarrow> before (event_node ev) \<in> set seen) \<and>
      preceded before after (seen @ [ev]) evs)"

section \<open>Properties\<close>

subsection \<open>The actuators and the loops\<close>

lemma cordon_node_snd: "snd (cordon_node cfg w n s) = s\<lparr>calls := calls s @ [Cordon n]\<rparr>"
  by (simp add: cordon_node_def Let_def)

lemma uncordon_node_snd: "snd (uncordon_node cfg w n s) = s\<lparr>calls := calls s @ [Uncordon n]\<rparr>"
  by (simp add: uncordon_node_def Let_def)

lemma drain_node_snd: "snd (drain_node cfg w n s) = s\<lparr>calls := calls s @ [Drain n]\<rparr>"
  by (simp add: drain_node_def Let_def split: run_result.splits)

lemma shutdown_node_snd:
  "snd (shutdown_node cfg w n s) =
     s\<lparr>calls := calls s @ [Shutdown n],
       nodes_shutdown := (if fst (shutdown_node cfg w n s) then insert n (nodes_shutdown s)
                          else nodes_shutdown s)\<rparr>"
  by (simp add: shutdown_node_def Let_def split: run_result.splits option.splits)

lemma fold_cordon_priority:
  "fold (cordon_priority cfg w) xs s =
     s\<lparr>calls := calls s @ map Cordon (filter (\<lambda>m. m \<noteq> critical_node cfg) (map strip xs))\<rparr>"
  by (induction xs arbitrary: s) (simp_all add: cordon_priority_def cordon_node_snd Let_def)

lemma fold_drain_priority:
  "fold (drain_priority cfg w) xs s =
     s\<lparr>calls := calls s @ map Drain
        (filter (\<lambda>m. m \<noteq> critical_node cfg \<and> m \<notin> nodes_shutdown s) (map strip xs))\<rparr>"
  by (induction xs arbitrary: s) (simp_all add: drain_priority_def drain_node_snd Let_def)

lemma fold_cordon_drain_secondary:
  "fold (cordon_drain_secondary cfg w) xs s =
     s\<lparr>calls := calls s @ concat (map (\<lambda>m. [Cordon m, Drain m])
        (filter (\<lambda>m. m \<noteq> critical_node cfg \<and> m \<notin> nodes_shutdown s) (map strip xs)))\<rparr>"
  by (induction xs arbitrary: s)
     (simp_all add: cordon_drain_secondary_def drain_node_snd cordon_node_snd Let_def)

lemma shutdown_node_fst:
  "fst (shutdown_node cfg w n s) \<longleftrightarrow>
     dry_run cfg \<or> skip_shutdown cfg \<or> poweroff_completes w (length (calls s))"
  by (auto simp: shutdown_node_def poweroff_completes_def Let_def
            split: run_result.splits option.splits)

lemma fold_shutdown_listed:
  "\<exists>ms D. fold (shutdown_listed cfg w) xs s =
            s\<lparr>calls := calls s @ map Shutdown ms, nodes_shutdown := nodes_shutdown s \<union> D\<rparr>
     \<and> set ms \<subseteq> {m \<in> strip ` set xs. m \<noteq> critical_node cfg \<and> m \<notin> nodes_shutdown s}
     \<and> D \<subseteq> set ms
     \<and> (\<forall>n \<in> set xs. strip n \<noteq> critical_node cfg \<longrightarrow>
           strip n \<in> nodes_shutdown s \<or> strip n \<in> set ms)
     \<and> (always_succeeds cfg w \<longrightarrow> D = set ms)"
proof (induction xs arbitrary: s)
  case Nil
  show ?case by (rule exI [of _ "[]"], rule exI [of _ "{}"]) simp
next
  case (Cons x xs)
  let ?m = "strip x"
  show ?case
  proof (cases "?m = critical_node cfg \<or> ?m \<in> nodes_shutdown s")
    case True
    then have step: "shutdown_listed cfg w x s = s"
      by (simp add: shutdown_listed_def Let_def)
    from Cons.IH [of s] obtain ms D where
      eq: "fold (shutdown_listed cfg w) xs s =
             s\<lparr>calls := calls s @ map Shutdown ms, nodes_shutdown := nodes_shutdown s \<union> D\<rparr>"
      and sub: "set ms \<subseteq> {m \<in> strip ` set xs. m \<noteq> critical_node cfg \<and> m \<notin> nodes_shutdown s}"
      and D: "D \<subseteq> set ms"
      and att: "\<forall>n \<in> set xs. strip n \<noteq> critical_node cfg \<longrightarrow>
                  strip n \<in> nodes_shutdown s \<or> strip n \<in> set ms"
      and ok: "always_succeeds cfg w \<longrightarrow> D = set ms"
      by blast
    show ?thesis
      apply (rule exI [of _ ms], rule exI [of _ D])
      using True step eq sub D att ok by auto
  next
    case False
    let ?ok = "fst (shutdown_node cfg w ?m s)"
    let ?s1 = "snd (shutdown_node cfg w ?m s)"
    from False have step: "shutdown_listed cfg w x s = ?s1"
      by (simp add: shutdown_listed_def Let_def)
    have s1: "?s1 = s\<lparr>calls := calls s @ [Shutdown ?m],
                      nodes_shutdown := (if ?ok then insert ?m (nodes_shutdown s)
                                         else nodes_shutdown s)\<rparr>"
      by (rule shutdown_node_snd)
    from Cons.IH [of ?s1] obtain ms D where
      eq: "fold (shutdown_listed cfg w) xs ?s1 =
             ?s1\<lparr>calls := calls ?s1 @ map Shutdown ms, nodes_shutdown := nodes_shutdown ?s1 \<union> D\<rparr>"
      and sub: "set ms \<subseteq> {m \<in> strip ` set xs. m \<noteq> critical_node cfg \<and> m \<notin> nodes_shutdown ?s1}"
      and D: "D \<subseteq> set ms"
      and att: "\<forall>n \<in> set xs. strip n \<noteq> critical_node cfg \<longrightarrow>
                  strip n \<in> nodes_shutdown ?s1 \<or> strip n \<in> set ms"
      and ok: "always_succeeds cfg w \<longrightarrow> D = set ms"
      by blast
    have ns1: "nodes_shutdown ?s1 = (if ?ok then insert ?m (nodes_shutdown s) else nodes_shutdown s)"
      by (subst s1) simp
    have c1: "calls ?s1 = calls s @ [Shutdown ?m]"
      by (subst s1) simp
    let ?D = "(if ?ok then {?m} else {}) \<union> D"
    have eq': "fold (shutdown_listed cfg w) (x # xs) s =
            s\<lparr>calls := calls s @ map Shutdown (?m # ms), nodes_shutdown := nodes_shutdown s \<union> ?D\<rparr>"
      using eq step s1 by (simp add: ns1 c1 Un_assoc)
    have sub': "set (?m # ms) \<subseteq>
        {m \<in> strip ` set (x # xs). m \<noteq> critical_node cfg \<and> m \<notin> nodes_shutdown s}"
      using sub False ns1 by (auto split: if_splits)
    have D': "?D \<subseteq> set (?m # ms)" using D by auto
    have att': "\<forall>n \<in> set (x # xs). strip n \<noteq> critical_node cfg \<longrightarrow>
                  strip n \<in> nodes_shutdown s \<or> strip n \<in> set (?m # ms)"
      using att ns1 by (auto split: if_splits)
    have ok': "always_succeeds cfg w \<longrightarrow> ?D = set (?m # ms)"
      using ok by (auto simp: always_succeeds_def shutdown_node_fst)
    show ?thesis
      apply (rule exI [of _ "?m # ms"], rule exI [of _ ?D])
      using eq' sub' D' att' ok' by blast
  qed
qed

lemma filter_listed:
  "filter (\<lambda>m. m \<noteq> critical_node cfg \<and> m \<notin> A) (map strip xs) = filter (\<lambda>m. m \<notin> A) (listed cfg xs)"
  by (simp add: listed_def conj_commute)

lemma set_listed: "set (listed cfg xs) = {m \<in> strip ` set xs. m \<noteq> critical_node cfg}"
  by (auto simp: listed_def)

lemma phase1_eq:
  "phase1 cfg w e s =
     s\<lparr>shutdown_initiated := shutdown_initiated s \<or> guard_met cfg Phase1 e,
       calls := calls s @ (if guard_met cfg Phase1 e \<and> \<not> shutdown_initiated s
                           then map Cordon (listed cfg (priority_shutdown_nodes cfg)) else [])\<rparr>"
  by (auto simp: phase1_def fold_cordon_priority listed_def)

lemma phase2_eq:
  "phase2 cfg w e s =
     s\<lparr>calls := calls s @ (if guard_met cfg Phase2 e
        then map Drain (filter (\<lambda>m. m \<notin> nodes_shutdown s) (listed cfg (priority_shutdown_nodes cfg)))
        else [])\<rparr>"
  by (simp add: phase2_def fold_drain_priority filter_listed)

lemma phase4_eq:
  "phase4 cfg w e s =
     s\<lparr>calls := calls s @ (if guard_met cfg Phase4 e
        then concat (map (\<lambda>m. [Cordon m, Drain m])
               (filter (\<lambda>m. m \<notin> nodes_shutdown s) (listed cfg (secondary_shutdown_nodes cfg))))
        else [])\<rparr>"
  by (simp add: phase4_def fold_cordon_drain_secondary filter_listed)

lemma guarded_shutdown_shape:
  "\<exists>ms D. (if g then fold (shutdown_listed cfg w) xs s else s) =
            s\<lparr>calls := calls s @ map Shutdown ms, nodes_shutdown := nodes_shutdown s \<union> D\<rparr>
     \<and> set ms \<subseteq> {m \<in> set (listed cfg xs). m \<notin> nodes_shutdown s}
     \<and> D \<subseteq> set ms
     \<and> (\<not> g \<longrightarrow> ms = [])
     \<and> (g \<longrightarrow> (\<forall>m \<in> set (listed cfg xs). m \<in> nodes_shutdown s \<or> m \<in> set ms))
     \<and> (always_succeeds cfg w \<longrightarrow> D = set ms)"
proof (cases g)
  case False
  then show ?thesis
    by (intro exI [of _ "[]"] exI [of _ "{}"]) simp
next
  case True
  from fold_shutdown_listed [of cfg w xs s] obtain ms D where
    "fold (shutdown_listed cfg w) xs s =
            s\<lparr>calls := calls s @ map Shutdown ms, nodes_shutdown := nodes_shutdown s \<union> D\<rparr>"
    "set ms \<subseteq> {m \<in> strip ` set xs. m \<noteq> critical_node cfg \<and> m \<notin> nodes_shutdown s}"
    "D \<subseteq> set ms"
    "\<forall>n \<in> set xs. strip n \<noteq> critical_node cfg \<longrightarrow>
           strip n \<in> nodes_shutdown s \<or> strip n \<in> set ms"
    "always_succeeds cfg w \<longrightarrow> D = set ms"
    by blast
  with True show ?thesis
    by (intro exI [of _ ms] exI [of _ D]) (auto simp: set_listed)
qed

lemma execute_shape:
  "\<exists>ms3 D3 ms5 D5.
     execute_shutdown_sequence cfg w e s =
       s\<lparr>shutdown_initiated := shutdown_initiated s \<or> guard_met cfg Phase1 e,
         calls := calls s @ poll_calls cfg e s ms3 D3 ms5,
         nodes_shutdown := nodes_shutdown s \<union> D3 \<union> D5\<rparr>
     \<and> set ms3 \<subseteq> {m \<in> set (listed cfg (priority_shutdown_nodes cfg)). m \<notin> nodes_shutdown s}
     \<and> D3 \<subseteq> set ms3
     \<and> (\<not> guard_met cfg Phase3 e \<longrightarrow> ms3 = [])
     \<and> (guard_met cfg Phase3 e \<longrightarrow>
          (\<forall>m \<in> set (listed cfg (priority_shutdown_nodes cfg)). m \<in> nodes_shutdown s \<or> m \<in> set ms3))
     \<and> set ms5 \<subseteq> {m \<in> set (listed cfg (secondary_shutdown_nodes cfg)). m \<notin> nodes_shutdown s \<union> D3}
     \<and> D5 \<subseteq> set ms5
     \<and> (\<not> guard_met cfg Phase5 e \<longrightarrow> ms5 = [])
     \<and> (guard_met cfg Phase5 e \<longrightarrow>
          (\<forall>m \<in> set (listed cfg (secondary_shutdown_nodes cfg)).
             m \<in> nodes_shutdown s \<union> D3 \<or> m \<in> set ms5))
     \<and> (always_succeeds cfg w \<longrightarrow> D3 = set ms3 \<and> D5 = set ms5)"
proof -
  let ?P = "listed cfg (priority_shutdown_nodes cfg)"
  let ?S = "listed cfg (secondary_shutdown_nodes cfg)"
  define s1 where "s1 = phase1 cfg w e s"
  define s2 where "s2 = phase2 cfg w e s1"
  define s3 where "s3 = phase3 cfg w e s2"
  define s4 where "s4 = phase4 cfg w e s3"
  have e1: "s1 = s\<lparr>shutdown_initiated := shutdown_initiated s \<or> guard_met cfg Phase1 e,
       calls := calls s @ (if guard_met cfg Phase1 e \<and> \<not> shutdown_initiated s
                           then map Cordon ?P else [])\<rparr>"
    unfolding s1_def by (rule phase1_eq)
  have e2: "s2 = s1\<lparr>calls := calls s1 @ (if guard_met cfg Phase2 e
        then map Drain (filter (\<lambda>m. m \<notin> nodes_shutdown s1) ?P) else [])\<rparr>"
    unfolding s2_def by (rule phase2_eq)
  have ns2: "nodes_shutdown s2 = nodes_shutdown s"
    by (simp add: e1 e2)
  from guarded_shutdown_shape [of "guard_met cfg Phase3 e" cfg w "priority_shutdown_nodes cfg" s2]
  obtain ms3 D3 where
    e3: "s3 = s2\<lparr>calls := calls s2 @ map Shutdown ms3, nodes_shutdown := nodes_shutdown s2 \<union> D3\<rparr>"
    and p3: "set ms3 \<subseteq> {m \<in> set ?P. m \<notin> nodes_shutdown s}" "D3 \<subseteq> set ms3"
      "\<not> guard_met cfg Phase3 e \<longrightarrow> ms3 = []"
      "guard_met cfg Phase3 e \<longrightarrow> (\<forall>m \<in> set ?P. m \<in> nodes_shutdown s \<or> m \<in> set ms3)"
      "always_succeeds cfg w \<longrightarrow> D3 = set ms3"
    unfolding s3_def phase3_def ns2 by blast
  have e4: "s4 = s3\<lparr>calls := calls s3 @ (if guard_met cfg Phase4 e
        then concat (map (\<lambda>m. [Cordon m, Drain m]) (filter (\<lambda>m. m \<notin> nodes_shutdown s3) ?S))
        else [])\<rparr>"
    unfolding s4_def by (rule phase4_eq)
  have ns4: "nodes_shutdown s4 = nodes_shutdown s \<union> D3"
    by (simp add: e4 e3 ns2)
  from guarded_shutdown_shape [of "guard_met cfg Phase5 e" cfg w "secondary_shutdown_nodes cfg" s4]
  obtain ms5 D5 where
    e5: "phase5 cfg w e s4 =
           s4\<lparr>calls := calls s4 @ map Shutdown ms5, nodes_shutdown := nodes_shutdown s4 \<union> D5\<rparr>"
    and p5: "set ms5 \<subseteq> {m \<in> set ?S. m \<notin> nodes_shutdown s \<union> D3}" "D5 \<subseteq> set ms5"
      "\<not> guard_met cfg Phase5 e \<longrightarrow> ms5 = []"
      "guard_met cfg Phase5 e \<longrightarrow> (\<forall>m \<in> set ?S. m \<in> nodes_shutdown s \<union> D3 \<or> m \<in> set ms5)"
      "always_succeeds cfg w \<longrightarrow> D5 = set ms5"
    unfolding phase5_def ns4 by blast
  have "execute_shutdown_sequence cfg w e s = phase5 cfg w e s4"
    by (simp add: execute_shutdown_sequence_def s4_def s3_def s2_def s1_def)
  also have "\<dots> = s\<lparr>shutdown_initiated := shutdown_initiated s \<or> guard_met cfg Phase1 e,
         calls := calls s @ poll_calls cfg e s ms3 D3 ms5,
         nodes_shutdown := nodes_shutdown s \<union> D3 \<union> D5\<rparr>"
    unfolding e5 by (simp add: e4 e3 e2 e1 poll_calls_def)
  finally show ?thesis
    using p3 p5 by blast
qed

subsection \<open>A run of polls\<close>

lemma allowed_mono:
  "nodes_shutdown s \<subseteq> nodes_shutdown s' \<Longrightarrow> (shutdown_initiated s \<longrightarrow> shutdown_initiated s')
   \<Longrightarrow> allowed cfg s' ev \<Longrightarrow> allowed cfg s ev"
  by (cases ev) auto

lemma advances_refl: "advances cfg s s"
  by (simp add: advances_def)

lemma advances_trans:
  assumes "advances cfg s s'" and "advances cfg s' s''"
  shows "advances cfg s s''"
proof -
  from assms(1) obtain evs where a: "nodes_shutdown s \<subseteq> nodes_shutdown s'"
    "shutdown_initiated s \<longrightarrow> shutdown_initiated s'"
    "power_outage_start s' = power_outage_start s"
    "calls s' = calls s @ evs" "\<forall>ev \<in> set evs. allowed cfg s ev"
    unfolding advances_def by blast
  from assms(2) obtain evs' where b: "nodes_shutdown s' \<subseteq> nodes_shutdown s''"
    "shutdown_initiated s' \<longrightarrow> shutdown_initiated s''"
    "power_outage_start s'' = power_outage_start s'"
    "calls s'' = calls s' @ evs'" "\<forall>ev \<in> set evs'. allowed cfg s' ev"
    unfolding advances_def by blast
  have "\<forall>ev \<in> set (evs @ evs'). allowed cfg s ev"
    using a b allowed_mono [of s s' cfg] by auto
  moreover have "calls s'' = calls s @ (evs @ evs')"
    using a b by simp
  ultimately show ?thesis
    unfolding advances_def using a b by (metis subset_trans)
qed

lemma poll_calls_allowed:
  assumes "set ms3 \<subseteq> {m \<in> set (listed cfg (priority_shutdown_nodes cfg)). m \<notin> nodes_shutdown s}"
    and "set ms5 \<subseteq> {m \<in> set (listed cfg (secondary_shutdown_nodes cfg)). m \<notin> nodes_shutdown s \<union> D3}"
    and "ev \<in> set (poll_calls cfg e s ms3 D3 ms5)"
  shows "allowed cfg s ev"
  using assms by (auto simp: poll_calls_def set_listed split: if_splits)

lemma execute_advances: "advances cfg s (execute_shutdown_sequence cfg w e s)"
proof -
  from execute_shape [of cfg w e s] obtain ms3 D3 ms5 D5 where
    eq: "execute_shutdown_sequence cfg w e s =
       s\<lparr>shutdown_initiated := shutdown_initiated s \<or> guard_met cfg Phase1 e,
         calls := calls s @ poll_calls cfg e s ms3 D3 ms5,
         nodes_shutdown := nodes_shutdown s \<union> D3 \<union> D5\<rparr>"
    and sub: "set ms3 \<subseteq> {m \<in> set (listed cfg (priority_shutdown_nodes cfg)). m \<notin> nodes_shutdown s}"
      "set ms5 \<subseteq> {m \<in> set (listed cfg (secondary_shutdown_nodes cfg)). m \<notin> nodes_shutdown s \<union> D3}"
    by blast
  show ?thesis
    unfolding advances_def eq using poll_calls_allowed [OF sub] by auto
qed

lemma polls_advances: "advances cfg s (polls cfg w es s)"
proof (induction es arbitrary: s)
  case Nil
  show ?case by (simp add: polls_def advances_refl)
next
  case (Cons e es)
  have "advances cfg s (execute_shutdown_sequence cfg w e s)"
    by (rule execute_advances)
  moreover have "advances cfg (execute_shutdown_sequence cfg w e s)
                   (polls cfg w es (execute_shutdown_sequence cfg w e s))"
    by (rule Cons.IH)
  ultimately have "advances cfg s (polls cfg w es (execute_shutdown_sequence cfg w e s))"
    by (rule advances_trans)
  then show ?case by (simp add: polls_def)
qed

lemma advances_new_calls:
  "advances cfg s s' \<Longrightarrow> ev \<in> set (new_calls s s') \<Longrightarrow> allowed cfg s ev"
  unfolding advances_def by (auto simp: new_calls_def)

lemma guard_met_mono: "e1 \<le> e2 \<Longrightarrow> guard_met cfg ph e1 \<Longrightarrow> guard_met cfg ph e2"
  by (cases ph) auto

text \<open>Rules that evaluate the model on concrete inputs.\<close>

lemmas run_simps =
  polls_def execute_shutdown_sequence_def phase1_def phase2_def phase3_def phase4_def phase5_def
  cordon_priority_def drain_priority_def shutdown_listed_def cordon_drain_secondary_def
  cordon_node_def drain_node_def shutdown_node_def uncordon_node_def Let_def
  default_config_def initial_def calm_def strip_def is_space_def new_calls_def listed_def

subsection \<open>Recovery and the monitoring loop\<close>

lemma restore_loop_eq:
  "restore_loop cfg w items s =
     s\<lparr>calls := calls s @ map (\<lambda>nd. Uncordon (node_name nd))
                              (filter (recovered cfg) (examined cfg items))\<rparr>"
proof (induction items arbitrary: s)
  case Nil
  show ?case by (simp add: examined_def)
next
  case (Cons nd items)
  show ?case
  proof (cases "node_name nd = critical_node cfg")
    case True
    then show ?thesis
      by (simp add: Cons.IH examined_def recovered_def)
  next
    case False
    show ?thesis
    proof (cases "conditions nd")
      case None
      with False show ?thesis by (simp add: examined_def)
    next
      case (Some conds)
      with False show ?thesis
        by (simp add: Cons.IH examined_def recovered_def uncordon_node_snd)
    qed
  qed
qed

lemma examined_all:
  "\<forall>nd \<in> set items. node_name nd \<noteq> critical_node cfg \<longrightarrow> conditions nd \<noteq> None
   \<Longrightarrow> examined cfg items = items"
  by (auto simp: examined_def)

lemma restore_calls:
  "calls (restore_power_procedures cfg w s) =
     calls s @ (case list_node w (length (calls s)) of
                  None \<Rightarrow> []
                | Some items \<Rightarrow> map (\<lambda>nd. Uncordon (node_name nd))
                                  (filter (recovered cfg) (examined cfg items)))"
  by (simp add: restore_power_procedures_def reset_state_def restore_loop_eq split: option.splits)

lemma recovered_not_critical: "recovered cfg nd \<Longrightarrow> node_name nd \<noteq> critical_node cfg"
  by (simp add: recovered_def)

lemma spares_refl: "spares cfg s s"
  by (simp add: spares_def)

lemma spares_trans: "spares cfg s s' \<Longrightarrow> spares cfg s' s'' \<Longrightarrow> spares cfg s s''"
proof -
  assume "spares cfg s s'" and "spares cfg s' s''"
  then obtain evs evs' where "calls s' = calls s @ evs" "calls s'' = calls s' @ evs'"
    "\<forall>ev \<in> set evs. event_node ev \<noteq> critical_node cfg"
    "\<forall>ev \<in> set evs'. event_node ev \<noteq> critical_node cfg"
    unfolding spares_def by blast
  then have "calls s'' = calls s @ (evs @ evs')"
    "\<forall>ev \<in> set (evs @ evs'). event_node ev \<noteq> critical_node cfg"
    by auto
  then show ?thesis
    unfolding spares_def by blast
qed

lemma allowed_spares: "allowed cfg s ev \<Longrightarrow> event_node ev \<noteq> critical_node cfg"
  by (cases ev) auto

lemma advances_spares: "advances cfg s s' \<Longrightarrow> spares cfg s s'"
  unfolding advances_def spares_def using allowed_spares by blast

lemma restore_spares: "spares cfg s (restore_power_procedures cfg w s)"
  unfolding spares_def
  by (rule exI [of _ "case list_node w (length (calls s)) of
                  None \<Rightarrow> []
                | Some items \<Rightarrow> map (\<lambda>nd. Uncordon (node_name nd))
                                  (filter (recovered cfg) (examined cfg items))"])
     (auto simp: restore_calls recovered_not_critical split: option.splits)

lemma spares_calls_eq: "calls s' = calls s \<Longrightarrow> spares cfg s s'"
  by (simp add: spares_def)

lemma tick_spares: "spares cfg s (tick pyfloat cfg w inp s)"
proof (cases "is_power_available pyfloat cfg (sensor_data inp)")
  case (Inl e)
  then show ?thesis
    by (simp add: tick_def spares_refl)
next
  case (Inr power_available)
  show ?thesis
  proof (cases power_available)
    case True
    with Inr show ?thesis
      by (auto simp: tick_def restore_spares spares_refl spares_calls_eq split: option.splits)
  next
    case False
    let ?t0 = "case power_outage_start s of None \<Rightarrow> now_onset inp | Some t \<Rightarrow> t"
    let ?s' = "s\<lparr>power_outage_start := Some ?t0\<rparr>"
    have "spares cfg s ?s'" by (simp add: spares_calls_eq)
    moreover have "spares cfg ?s' (execute_shutdown_sequence cfg w (now_elapsed inp - ?t0) ?s')"
      by (rule advances_spares, rule execute_advances)
    ultimately have "spares cfg s (execute_shutdown_sequence cfg w (now_elapsed inp - ?t0) ?s')"
      by (rule spares_trans)
    with Inr False show ?thesis
      by (simp add: tick_def Let_def)
  qed
qed

lemma run_spares: "spares cfg s (run pyfloat cfg w inps s)"
proof (induction inps arbitrary: s)
  case Nil
  show ?case by (simp add: run_def spares_refl)
next
  case (Cons inp inps)
  have "spares cfg s (run pyfloat cfg w inps (tick pyfloat cfg w inp s))"
    using tick_spares Cons.IH by (rule spares_trans)
  then show ?case by (simp add: run_def)
qed

lemma spares_new_calls:
  "spares cfg s s' \<Longrightarrow> ev \<in> set (new_calls s s') \<Longrightarrow> event_node ev \<noteq> critical_node cfg"
  unfolding spares_def by (auto simp: new_calls_def)

lemma count_uncordon_le:
  "count_list (map (\<lambda>nd. Uncordon (node_name nd)) (filter P (takeWhile Q items))) (Uncordon m)
     \<le> count_list (map node_name items) m"
  by (induction items) auto

lemma restore_fields:
  "power_outage_start (restore_power_procedures cfg w s) = None"
  "\<not> shutdown_initiated (restore_power_procedures cfg w s)"
  "nodes_shutdown (restore_power_procedures cfg w s) = {}"
  by (simp_all add: restore_power_procedures_def reset_state_def)

subsection \<open>The invocations of one poll\<close>

lemma cordon_in_poll_calls:
  "Cordon m \<in> set (poll_calls cfg e s ms3 D3 ms5) \<longleftrightarrow>
     (guard_met cfg Phase1 e \<and> \<not> shutdown_initiated s
        \<and> m \<in> set (listed cfg (priority_shutdown_nodes cfg)))
     \<or> (guard_met cfg Phase4 e \<and> m \<in> set (listed cfg (secondary_shutdown_nodes cfg))
        \<and> m \<notin> nodes_shutdown s \<union> D3)"
  by (auto simp: poll_calls_def)

lemma drain_in_poll_calls:
  "Drain m \<in> set (poll_calls cfg e s ms3 D3 ms5) \<longleftrightarrow>
     (guard_met cfg Phase2 e \<and> m \<in> set (listed cfg (priority_shutdown_nodes cfg))
        \<and> m \<notin> nodes_shutdown s)
     \<or> (guard_met cfg Phase4 e \<and> m \<in> set (listed cfg (secondary_shutdown_nodes cfg))
        \<and> m \<notin> nodes_shutdown s \<union> D3)"
  by (auto simp: poll_calls_def)

lemma shutdown_in_poll_calls:
  "Shutdown m \<in> set (poll_calls cfg e s ms3 D3 ms5) \<longleftrightarrow> m \<in> set ms3 \<or> m \<in> set ms5"
  by (auto simp: poll_calls_def)

lemma poll_repeats:
  "(m \<in> set (listed cfg (priority_shutdown_nodes cfg)) \<and> m \<notin> nodes_shutdown s
      \<and> guard_met cfg Phase2 e \<longrightarrow>
      Drain m \<in> set (new_calls s (execute_shutdown_sequence cfg w e s)))
   \<and> (m \<in> set (listed cfg (secondary_shutdown_nodes cfg)) \<and> guard_met cfg Phase4 e
      \<and> (m \<notin> nodes_shutdown s \<and> m \<notin> set (listed cfg (priority_shutdown_nodes cfg))
         \<or> m \<notin> nodes_shutdown (execute_shutdown_sequence cfg w e s)) \<longrightarrow>
      Cordon m \<in> set (new_calls s (execute_shutdown_sequence cfg w e s))
      \<and> Drain m \<in> set (new_calls s (execute_shutdown_sequence cfg w e s)))
   \<and> (guard_met cfg Phase1 e \<longrightarrow> shutdown_initiated (execute_shutdown_sequence cfg w e s))
   \<and> (\<not> shutdown_initiated s \<and> guard_met cfg Phase1 e
      \<and> m \<in> set (listed cfg (priority_shutdown_nodes cfg)) \<longrightarrow>
      Cordon m \<in> set (new_calls s (execute_shutdown_sequence cfg w e s)))"
proof -
  from execute_shape [of cfg w e s] obtain ms3 D3 ms5 D5 where
    eq: "execute_shutdown_sequence cfg w e s =
       s\<lparr>shutdown_initiated := shutdown_initiated s \<or> guard_met cfg Phase1 e,
         calls := calls s @ poll_calls cfg e s ms3 D3 ms5,
         nodes_shutdown := nodes_shutdown s \<union> D3 \<union> D5\<rparr>"
    and p3: "set ms3 \<subseteq> {m \<in> set (listed cfg (priority_shutdown_nodes cfg)). m \<notin> nodes_shutdown s}"
      "D3 \<subseteq> set ms3"
    by blast
  have new: "new_calls s (execute_shutdown_sequence cfg w e s) = poll_calls cfg e s ms3 D3 ms5"
    by (simp add: eq new_calls_def)
  have ns: "nodes_shutdown (execute_shutdown_sequence cfg w e s) = nodes_shutdown s \<union> D3 \<union> D5"
    and si: "shutdown_initiated (execute_shutdown_sequence cfg w e s)
               = (shutdown_initiated s \<or> guard_met cfg Phase1 e)"
    by (simp_all add: eq)
  have notD3: "m \<notin> nodes_shutdown s \<and> m \<notin> set (listed cfg (priority_shutdown_nodes cfg))
         \<or> m \<notin> nodes_shutdown s \<union> D3 \<union> D5 \<Longrightarrow> m \<notin> nodes_shutdown s \<union> D3"
    using p3 by auto
  show ?thesis
    unfolding new ns si
    using notD3 by (auto simp: cordon_in_poll_calls drain_in_poll_calls)
qed

subsection \<open>The order of the invocations\<close>

lemma preceded_append:
  "preceded b a seen (xs @ ys) \<longleftrightarrow> preceded b a seen xs \<and> preceded b a (seen @ xs) ys"
  by (induction xs arbitrary: seen) auto

lemma preceded_none:
  "\<forall>ev \<in> set xs. ev \<noteq> a (event_node ev) \<Longrightarrow> preceded b a seen xs"
  by (induction xs arbitrary: seen) auto

lemma preceded_present:
  "\<forall>ev \<in> set xs. ev = a (event_node ev) \<longrightarrow> b (event_node ev) \<in> set seen
   \<Longrightarrow> preceded b a seen xs"
  by (induction xs arbitrary: seen) auto

lemma preceded_pairs:
  "preceded Cordon Drain seen (concat (map (\<lambda>m. [Cordon m, Drain m]) ms))"
  by (induction ms arbitrary: seen) auto

lemma preceded_pairs_shutdown:
  "preceded Drain Shutdown seen (concat (map (\<lambda>m. [Cordon m, Drain m]) ms))"
  by (induction ms arbitrary: seen) auto

lemma poll_cordon_first:
  assumes "shutdown_initiated s \<longrightarrow>
             (\<forall>m \<in> set (listed cfg (priority_shutdown_nodes cfg)). Cordon m \<in> set L)"
  shows "preceded Cordon Drain L (poll_calls cfg e s ms3 D3 ms5)"
proof -
  let ?P = "listed cfg (priority_shutdown_nodes cfg)"
  let ?E1 = "if guard_met cfg Phase1 e \<and> \<not> shutdown_initiated s then map Cordon ?P else []"
  let ?E2 = "if guard_met cfg Phase2 e
      then map Drain (filter (\<lambda>m. m \<notin> nodes_shutdown s) ?P) else []"
  let ?E4 = "if guard_met cfg Phase4 e
      then concat (map (\<lambda>m. [Cordon m, Drain m])
             (filter (\<lambda>m. m \<notin> nodes_shutdown s \<union> D3) (listed cfg (secondary_shutdown_nodes cfg))))
      else []"
  have 1: "preceded Cordon Drain L ?E1"
    by (rule preceded_none) auto
  have 2: "preceded Cordon Drain (L @ ?E1) ?E2"
    by (rule preceded_present) (use assms in auto)
  have 3: "preceded Cordon Drain (L @ ?E1 @ ?E2) (map Shutdown ms3)"
    by (rule preceded_none) auto
  have 4: "preceded Cordon Drain (L @ ?E1 @ ?E2 @ map Shutdown ms3) ?E4"
    using preceded_pairs by simp
  have 5: "preceded Cordon Drain (L @ ?E1 @ ?E2 @ map Shutdown ms3 @ ?E4) (map Shutdown ms5)"
    by (rule preceded_none) auto
  show ?thesis
    unfolding poll_calls_def using 1 2 3 4 5 by (simp only: preceded_append append_assoc simp_thms)
qed

lemma poll_cordoned_after:
  assumes "shutdown_initiated s \<longrightarrow>
             (\<forall>m \<in> set (listed cfg (priority_shutdown_nodes cfg)). Cordon m \<in> set L)"
    and "shutdown_initiated s \<or> guard_met cfg Phase1 e"
    and "m \<in> set (listed cfg (priority_shutdown_nodes cfg))"
  shows "Cordon m \<in> set (L @ poll_calls cfg e s ms3 D3 ms5)"
  using assms by (auto simp: poll_calls_def)

lemma poll_drain_first:
  assumes "60 \<le> shutdown_pi5_01_delay cfg" and "300 \<le> shutdown_others_delay cfg"
    and "set ms3 \<subseteq> {m \<in> set (listed cfg (priority_shutdown_nodes cfg)). m \<notin> nodes_shutdown s}"
    and "\<not> guard_met cfg Phase3 e \<longrightarrow> ms3 = []"
    and "set ms5 \<subseteq> {m \<in> set (listed cfg (secondary_shutdown_nodes cfg)). m \<notin> nodes_shutdown s \<union> D3}"
    and "\<not> guard_met cfg Phase5 e \<longrightarrow> ms5 = []"
  shows "preceded Drain Shutdown L (poll_calls cfg e s ms3 D3 ms5)"
proof -
  let ?P = "listed cfg (priority_shutdown_nodes cfg)"
  let ?E1 = "if guard_met cfg Phase1 e \<and> \<not> shutdown_initiated s then map Cordon ?P else []"
  let ?E2 = "if guard_met cfg Phase2 e
      then map Drain (filter (\<lambda>m. m \<notin> nodes_shutdown s) ?P) else []"
  let ?E4 = "if guard_met cfg Phase4 e
      then concat (map (\<lambda>m. [Cordon m, Drain m])
             (filter (\<lambda>m. m \<notin> nodes_shutdown s \<union> D3) (listed cfg (secondary_shutdown_nodes cfg))))
      else []"
  have g2: "guard_met cfg Phase3 e \<Longrightarrow> guard_met cfg Phase2 e"
  proof -
    assume "guard_met cfg Phase3 e"
    then have "of_int (shutdown_pi5_01_delay cfg) \<le> e" by simp
    moreover have "(60::rat) \<le> of_int (shutdown_pi5_01_delay cfg)"
      using assms(1) by (metis of_int_le_iff of_int_numeral)
    ultimately show ?thesis by simp
  qed
  have g4: "guard_met cfg Phase5 e \<Longrightarrow> guard_met cfg Phase4 e"
  proof -
    assume "guard_met cfg Phase5 e"
    then have "of_int (shutdown_others_delay cfg) \<le> e" by simp
    moreover have "(300::rat) \<le> of_int (shutdown_others_delay cfg)"
      using assms(2) by (metis of_int_le_iff of_int_numeral)
    ultimately show ?thesis by simp
  qed
  have 1: "preceded Drain Shutdown L ?E1"
    by (rule preceded_none) auto
  have 2: "preceded Drain Shutdown (L @ ?E1) ?E2"
    by (rule preceded_none) auto
  have 3: "preceded Drain Shutdown (L @ ?E1 @ ?E2) (map Shutdown ms3)"
  proof (rule preceded_present, intro ballI impI)
    fix ev assume "ev \<in> set (map Shutdown ms3)"
    then obtain m where m: "ev = Shutdown m" "m \<in> set ms3" by auto
    then have "ms3 \<noteq> []" by auto
    with assms(4) have "guard_met cfg Phase3 e" by blast
    then have "guard_met cfg Phase2 e" by (rule g2)
    moreover have "m \<in> set ?P" "m \<notin> nodes_shutdown s"
      using m assms(3) by auto
    ultimately show "Drain (event_node ev) \<in> set (L @ ?E1 @ ?E2)"
      using m by simp
  qed
  have 4: "preceded Drain Shutdown (L @ ?E1 @ ?E2 @ map Shutdown ms3) ?E4"
    using preceded_pairs_shutdown by simp
  have 5: "preceded Drain Shutdown (L @ ?E1 @ ?E2 @ map Shutdown ms3 @ ?E4) (map Shutdown ms5)"
  proof (rule preceded_present, intro ballI impI)
    fix ev assume "ev \<in> set (map Shutdown ms5)"
    then obtain m where m: "ev = Shutdown m" "m \<in> set ms5" by auto
    then have "ms5 \<noteq> []" by auto
    with assms(6) have "guard_met cfg Phase5 e" by blast
    then have "guard_met cfg Phase4 e" by (rule g4)
    moreover have "m \<in> set (listed cfg (secondary_shutdown_nodes cfg))" "m \<notin> nodes_shutdown s \<union> D3"
      using m assms(5) by auto
    ultimately have "Drain m \<in> set ?E4"
      by auto
    then show "Drain (event_node ev) \<in> set (L @ ?E1 @ ?E2 @ map Shutdown ms3 @ ?E4)"
      using m by simp
  qed
  show ?thesis
    unfolding poll_calls_def using 1 2 3 4 5 by (simp only: preceded_append append_assoc simp_thms)
qed


lemma polls_calls_split:
  "\<exists>R. calls (polls cfg w es s) = calls s @ R"
  using polls_advances [of cfg s w es] unfolding advances_def by blast

lemma polls_cordon_first:
  "shutdown_initiated s \<longrightarrow>
     (\<forall>m \<in> set (listed cfg (priority_shutdown_nodes cfg)). Cordon m \<in> set L)
   \<Longrightarrow> preceded Cordon Drain L (new_calls s (polls cfg w es s))"
proof (induction es arbitrary: s L)
  case Nil
  show ?case by (simp add: polls_def new_calls_def)
next
  case (Cons e es)
  let ?s1 = "execute_shutdown_sequence cfg w e s"
  from execute_shape [of cfg w e s] obtain ms3 D3 ms5 D5 where
    eq: "?s1 = s\<lparr>shutdown_initiated := shutdown_initiated s \<or> guard_met cfg Phase1 e,
         calls := calls s @ poll_calls cfg e s ms3 D3 ms5,
         nodes_shutdown := nodes_shutdown s \<union> D3 \<union> D5\<rparr>"
    by blast
  let ?E = "poll_calls cfg e s ms3 D3 ms5"
  have c1: "calls ?s1 = calls s @ ?E" and si1: "shutdown_initiated ?s1 = (shutdown_initiated s \<or> guard_met cfg Phase1 e)"
    by (simp_all add: eq)
  obtain R where R: "calls (polls cfg w es ?s1) = calls ?s1 @ R"
    using polls_calls_split by blast
  have first: "preceded Cordon Drain L ?E"
    using Cons.prems by (rule poll_cordon_first)
  have inv: "shutdown_initiated ?s1 \<longrightarrow>
     (\<forall>m \<in> set (listed cfg (priority_shutdown_nodes cfg)). Cordon m \<in> set (L @ ?E))"
    unfolding si1 using poll_cordoned_after [OF Cons.prems] by blast
  have "preceded Cordon Drain (L @ ?E) (new_calls ?s1 (polls cfg w es ?s1))"
    using inv by (rule Cons.IH)
  then have rest: "preceded Cordon Drain (L @ ?E) R"
    by (simp add: new_calls_def R)
  have "new_calls s (polls cfg w (e # es) s) = ?E @ R"
    by (simp add: polls_def [symmetric] new_calls_def R c1 polls_def [of cfg w "e # es"])
  then show ?case
    using first rest by (simp add: preceded_append)
qed

lemma polls_drain_first:
  assumes "60 \<le> shutdown_pi5_01_delay cfg" and "300 \<le> shutdown_others_delay cfg"
  shows "preceded Drain Shutdown L (new_calls s (polls cfg w es s))"
proof (induction es arbitrary: s L)
  case Nil
  show ?case by (simp add: polls_def new_calls_def)
next
  case (Cons e es)
  let ?s1 = "execute_shutdown_sequence cfg w e s"
  from execute_shape [of cfg w e s] obtain ms3 D3 ms5 D5 where
    eq: "?s1 = s\<lparr>shutdown_initiated := shutdown_initiated s \<or> guard_met cfg Phase1 e,
         calls := calls s @ poll_calls cfg e s ms3 D3 ms5,
         nodes_shutdown := nodes_shutdown s \<union> D3 \<union> D5\<rparr>"
    and p: "set ms3 \<subseteq> {m \<in> set (listed cfg (priority_shutdown_nodes cfg)). m \<notin> nodes_shutdown s}"
      "\<not> guard_met cfg Phase3 e \<longrightarrow> ms3 = []"
      "set ms5 \<subseteq> {m \<in> set (listed cfg (secondary_shutdown_nodes cfg)). m \<notin> nodes_shutdown s \<union> D3}"
      "\<not> guard_met cfg Phase5 e \<longrightarrow> ms5 = []"
    by blast
  let ?E = "poll_calls cfg e s ms3 D3 ms5"
  have c1: "calls ?s1 = calls s @ ?E"
    by (simp add: eq)
  obtain R where R: "calls (polls cfg w es ?s1) = calls ?s1 @ R"
    using polls_calls_split by blast
  have first: "preceded Drain Shutdown L ?E"
    using assms p by (rule poll_drain_first)
  have "preceded Drain Shutdown (L @ ?E) (new_calls ?s1 (polls cfg w es ?s1))"
    by (rule Cons.IH)
  then have rest: "preceded Drain Shutdown (L @ ?E) R"
    by (simp add: new_calls_def R)
  have "new_calls s (polls cfg w (e # es) s) = ?E @ R"
    by (simp add: polls_def [symmetric] new_calls_def R c1 polls_def [of cfg w "e # es"])
  then show ?case
    using first rest by (simp add: preceded_append)
qed

section \<open>The claims\<close>

subsection \<open>C1: a transition that succeeded is not invoked again\<close>

text \<open>
  C1, as stated, fails for drain: with the default configuration and collaborators that
  always succeed, the poll at 60 s drains the priority node successfully, and the polls at
  75 s and 90 s drain it again.
\<close>

theorem drain_repeated_counterexample:
  "fst (drain_node default_config calm ''pi5-01'' (phase1 default_config calm 60 initial))
   \<and> calls (polls default_config calm [60] initial) = [Cordon ''pi5-01'', Drain ''pi5-01'']
   \<and> new_calls (polls default_config calm [60] initial)
        (polls default_config calm [75, 90] (polls default_config calm [60] initial))
      = [Drain ''pi5-01'', Drain ''pi5-01'']"
  by (simp add: run_simps)

text \<open>
  C1, amended. Only the power-off is latched per node: once a node is in
  \<open>nodes_shutdown\<close> (its power-off has succeeded), no later poll of the outage invokes
  power-off or drain for it, and it stays recorded. The cordon of phase 1 is latched by
  \<open>shutdown_initiated\<close>: once the flag is set, a cordon is only invoked by phase 4, on a
  secondary node that is not yet shut down. Drain and the cordon of the secondary tier
  are not latched: every poll past 60 s invokes the drain of each priority node that is
  not recorded as shut down, and every poll past 300 s invokes the cordon and the drain of
  each secondary node that is not recorded as shut down (a node listed in both tiers,
  unless phase 3 of that poll has just shut it down), whether or not they succeeded before.
\<close>

theorem power_off_latched:
  "(m \<in> nodes_shutdown s \<longrightarrow>
      Shutdown m \<notin> set (new_calls s (polls cfg w es s)) \<and>
      Drain m \<notin> set (new_calls s (polls cfg w es s)) \<and>
      m \<in> nodes_shutdown (polls cfg w es s))
   \<and> (shutdown_initiated s \<and> Cordon m \<in> set (new_calls s (polls cfg w es s)) \<longrightarrow>
        m \<in> set (listed cfg (secondary_shutdown_nodes cfg)) \<and> m \<notin> nodes_shutdown s)
   \<and> (m \<in> set (listed cfg (priority_shutdown_nodes cfg)) \<and> m \<notin> nodes_shutdown s
        \<and> guard_met cfg Phase2 e \<longrightarrow>
        Drain m \<in> set (new_calls s (execute_shutdown_sequence cfg w e s)))
   \<and> (m \<in> set (listed cfg (secondary_shutdown_nodes cfg)) \<and> guard_met cfg Phase4 e
        \<and> (m \<notin> nodes_shutdown s \<and> m \<notin> set (listed cfg (priority_shutdown_nodes cfg))
           \<or> m \<notin> nodes_shutdown (execute_shutdown_sequence cfg w e s)) \<longrightarrow>
        Cordon m \<in> set (new_calls s (execute_shutdown_sequence cfg w e s))
        \<and> Drain m \<in> set (new_calls s (execute_shutdown_sequence cfg w e s)))"
proof -
  have adv: "advances cfg s (polls cfg w es s)"
    by (rule polls_advances)
  have a: "\<And>ev. ev \<in> set (new_calls s (polls cfg w es s)) \<Longrightarrow> allowed cfg s ev"
    using advances_new_calls [OF adv] .
  have "nodes_shutdown s \<subseteq> nodes_shutdown (polls cfg w es s)"
    using adv by (simp add: advances_def)
  then have latched: "(m \<in> nodes_shutdown s \<longrightarrow>
      Shutdown m \<notin> set (new_calls s (polls cfg w es s)) \<and>
      Drain m \<notin> set (new_calls s (polls cfg w es s)) \<and>
      m \<in> nodes_shutdown (polls cfg w es s))
   \<and> (shutdown_initiated s \<and> Cordon m \<in> set (new_calls s (polls cfg w es s)) \<longrightarrow>
        m \<in> set (listed cfg (secondary_shutdown_nodes cfg)) \<and> m \<notin> nodes_shutdown s)"
    using a [of "Shutdown m"] a [of "Drain m"] a [of "Cordon m"] by auto
  show ?thesis
    using latched poll_repeats [of m cfg s e w] by blast
qed

theorem power_off_latched_witness:
  "''pi5-01'' \<in> nodes_shutdown (polls default_config calm [200] initial)
   \<and> shutdown_initiated (polls default_config calm [200] initial)
   \<and> Shutdown ''pi5-01'' \<notin> set (new_calls (polls default_config calm [200] initial)
        (polls default_config calm [215, 230] (polls default_config calm [200] initial)))
   \<and> Drain ''pi5-01'' \<notin> set (new_calls (polls default_config calm [200] initial)
        (polls default_config calm [215, 230] (polls default_config calm [200] initial)))
   \<and> Cordon ''pi5-01'' \<notin> set (new_calls (polls default_config calm [200] initial)
        (polls default_config calm [215, 230] (polls default_config calm [200] initial)))
   \<and> Drain ''pi5-01'' \<in> set (calls (polls default_config calm [60] initial))
   \<and> Drain ''pi5-01'' \<in> set (new_calls (polls default_config calm [60] initial)
        (execute_shutdown_sequence default_config calm 75 (polls default_config calm [60] initial)))
   \<and> Cordon ''pi4-01'' \<in> set (calls (polls default_config calm [310] initial))
   \<and> Drain ''pi4-01'' \<in> set (calls (polls default_config calm [310] initial))
   \<and> Cordon ''pi4-01'' \<in> set (new_calls (polls default_config calm [310] initial)
        (execute_shutdown_sequence default_config calm 325 (polls default_config calm [310] initial)))
   \<and> Drain ''pi4-01'' \<in> set (new_calls (polls default_config calm [310] initial)
        (execute_shutdown_sequence default_config calm 325 (polls default_config calm [310] initial)))"
proof -
  have h: "''pi5-01'' \<in> nodes_shutdown (polls default_config calm [200] initial)"
    "shutdown_initiated (polls default_config calm [200] initial)"
    by (simp_all add: run_simps)
  have before: "Drain ''pi5-01'' \<in> set (calls (polls default_config calm [60] initial))"
    "Cordon ''pi4-01'' \<in> set (calls (polls default_config calm [310] initial))"
    "Drain ''pi4-01'' \<in> set (calls (polls default_config calm [310] initial))"
    by (simp_all add: run_simps)
  have p: "''pi5-01'' \<in> set (listed default_config (priority_shutdown_nodes default_config))"
    "''pi5-01'' \<notin> nodes_shutdown (polls default_config calm [60] initial)"
    "guard_met default_config Phase2 75"
    by (simp_all add: run_simps)
  have q: "''pi4-01'' \<in> set (listed default_config (secondary_shutdown_nodes default_config))"
    "''pi4-01'' \<notin> set (listed default_config (priority_shutdown_nodes default_config))"
    "''pi4-01'' \<notin> nodes_shutdown (polls default_config calm [310] initial)"
    "guard_met default_config Phase4 325"
    by (simp_all add: run_simps)
  show ?thesis
    using h before p q
      power_off_latched [of "''pi5-01''" "polls default_config calm [200] initial"
        default_config calm "[215, 230]"]
      power_off_latched [of "''pi5-01''" "polls default_config calm [60] initial"
        default_config calm "[]" 75]
      power_off_latched [of "''pi4-01''" "polls default_config calm [310] initial"
        default_config calm "[]" 325]
    by blast
qed

subsection \<open>C2: a failed attempt is made again\<close>

text \<open>
  C2, as stated, fails for the cordon of the priority tier: \<open>shutdown_initiated\<close> is set
  before the cordon loop and the result of \<open>cordon_node\<close> is not read. When the cordon at
  35 s fails, the poll at 50 s (threshold 30 s still met, collaborators now succeeding)
  invokes nothing.
\<close>

theorem cordon_not_retried_counterexample:
  "\<not> fst (cordon_node default_config (calm\<lparr>patch_node := \<lambda>i. False\<rparr>) ''pi5-01''
           (initial\<lparr>shutdown_initiated := True\<rparr>))
   \<and> calls (polls default_config (calm\<lparr>patch_node := \<lambda>i. False\<rparr>) [35] initial)
       = [Cordon ''pi5-01'']
   \<and> guard_met default_config Phase1 50
   \<and> new_calls (polls default_config (calm\<lparr>patch_node := \<lambda>i. False\<rparr>) [35] initial)
        (polls default_config calm [50]
           (polls default_config (calm\<lparr>patch_node := \<lambda>i. False\<rparr>) [35] initial)) = []"
  by (simp add: run_simps)

text \<open>
  C2, amended. A cordon, a drain and a failed power-off leave the tracking fields as they
  were (only the invocation is recorded). In every poll whose threshold is met, a node that
  is not recorded as shut down has its operation invoked again: a priority node its drain
  (phase 2) and its power-off (phase 3), a secondary node its cordon and drain (phase 4;
  a node listed in both tiers, unless phase 3 of that poll has just shut it down) and its
  power-off (phase 5). A power-off succeeds exactly in dry-run or skip mode or when the
  underlying calls complete, and then records the node; with collaborators whose
  power-off completes, the node is recorded after that poll. The cordon of the priority
  tier is attempted on one poll only: the first poll past 30 s invokes it and sets
  \<open>shutdown_initiated\<close> whatever the cordon returns, the flag stays set, and from then on
  a cordon is only invoked by phase 4, on a secondary node; a node that is not listed as
  secondary is cordoned only in a poll past 30 s that finds the flag unset.
\<close>

theorem failed_attempt_retried:
  "(\<not> fst (shutdown_node cfg w n s) \<longrightarrow>
       snd (shutdown_node cfg w n s) = s\<lparr>calls := calls s @ [Shutdown n]\<rparr>)
   \<and> snd (drain_node cfg w n s) = s\<lparr>calls := calls s @ [Drain n]\<rparr>
   \<and> snd (cordon_node cfg w n s) = s\<lparr>calls := calls s @ [Cordon n]\<rparr>
   \<and> (fst (shutdown_node cfg w n s) \<longleftrightarrow>
        dry_run cfg \<or> skip_shutdown cfg \<or> poweroff_completes w (length (calls s)))
   \<and> (fst (shutdown_node cfg w n s) \<longrightarrow> n \<in> nodes_shutdown (snd (shutdown_node cfg w n s)))
   \<and> (m \<in> set (listed cfg (priority_shutdown_nodes cfg)) \<and> m \<notin> nodes_shutdown s
        \<and> guard_met cfg Phase2 e \<longrightarrow>
        Drain m \<in> set (new_calls s (execute_shutdown_sequence cfg w e s)))
   \<and> (m \<in> set (listed cfg (priority_shutdown_nodes cfg)) \<and> m \<notin> nodes_shutdown s
        \<and> guard_met cfg Phase3 e \<longrightarrow>
        Shutdown m \<in> set (new_calls s (execute_shutdown_sequence cfg w e s)))
   \<and> (m \<in> set (listed cfg (secondary_shutdown_nodes cfg)) \<and> guard_met cfg Phase4 e
        \<and> (m \<notin> nodes_shutdown s \<and> m \<notin> set (listed cfg (priority_shutdown_nodes cfg))
           \<or> m \<notin> nodes_shutdown (execute_shutdown_sequence cfg w e s)) \<longrightarrow>
        Cordon m \<in> set (new_calls s (execute_shutdown_sequence cfg w e s))
        \<and> Drain m \<in> set (new_calls s (execute_shutdown_sequence cfg w e s)))
   \<and> (m \<in> set (listed cfg (secondary_shutdown_nodes cfg)) \<and> m \<notin> nodes_shutdown s
        \<and> guard_met cfg Phase5 e \<longrightarrow>
        Shutdown m \<in> set (new_calls s (execute_shutdown_sequence cfg w e s)))
   \<and> (always_succeeds cfg w \<and> m \<in> set (listed cfg (priority_shutdown_nodes cfg))
        \<and> guard_met cfg Phase3 e \<longrightarrow>
        m \<in> nodes_shutdown (execute_shutdown_sequence cfg w e s))
   \<and> (always_succeeds cfg w \<and> m \<in> set (listed cfg (secondary_shutdown_nodes cfg))
        \<and> guard_met cfg Phase5 e \<longrightarrow>
        m \<in> nodes_shutdown (execute_shutdown_sequence cfg w e s))
   \<and> (\<not> shutdown_initiated s \<and> guard_met cfg Phase1 e
        \<and> m \<in> set (listed cfg (priority_shutdown_nodes cfg)) \<longrightarrow>
        Cordon m \<in> set (new_calls s (execute_shutdown_sequence cfg w e s)))
   \<and> (guard_met cfg Phase1 e \<longrightarrow> shutdown_initiated (execute_shutdown_sequence cfg w e s))
   \<and> (shutdown_initiated s \<longrightarrow>
        shutdown_initiated (polls cfg w es s)
        \<and> (Cordon m \<in> set (new_calls s (polls cfg w es s)) \<longrightarrow>
             m \<in> set (listed cfg (secondary_shutdown_nodes cfg)) \<and> m \<notin> nodes_shutdown s))
   \<and> (Cordon m \<in> set (new_calls s (execute_shutdown_sequence cfg w e s))
        \<and> m \<notin> set (listed cfg (secondary_shutdown_nodes cfg)) \<longrightarrow>
        \<not> shutdown_initiated s \<and> guard_met cfg Phase1 e
        \<and> m \<in> set (listed cfg (priority_shutdown_nodes cfg)))"
proof -
  from execute_shape [of cfg w e s] obtain ms3 D3 ms5 D5 where
    eq: "execute_shutdown_sequence cfg w e s =
       s\<lparr>shutdown_initiated := shutdown_initiated s \<or> guard_met cfg Phase1 e,
         calls := calls s @ poll_calls cfg e s ms3 D3 ms5,
         nodes_shutdown := nodes_shutdown s \<union> D3 \<union> D5\<rparr>"
    and p3: "D3 \<subseteq> set ms3"
      "guard_met cfg Phase3 e \<longrightarrow>
          (\<forall>m \<in> set (listed cfg (priority_shutdown_nodes cfg)). m \<in> nodes_shutdown s \<or> m \<in> set ms3)"
    and p5: "guard_met cfg Phase5 e \<longrightarrow>
          (\<forall>m \<in> set (listed cfg (secondary_shutdown_nodes cfg)).
             m \<in> nodes_shutdown s \<union> D3 \<or> m \<in> set ms5)"
    and ok: "always_succeeds cfg w \<longrightarrow> D3 = set ms3 \<and> D5 = set ms5"
    by blast
  have new: "new_calls s (execute_shutdown_sequence cfg w e s) = poll_calls cfg e s ms3 D3 ms5"
    by (simp add: eq new_calls_def)
  have ns: "nodes_shutdown (execute_shutdown_sequence cfg w e s) = nodes_shutdown s \<union> D3 \<union> D5"
    by (simp add: eq)
  have a1: "\<not> fst (shutdown_node cfg w n s) \<longrightarrow>
       snd (shutdown_node cfg w n s) = s\<lparr>calls := calls s @ [Shutdown n]\<rparr>"
    by (simp add: shutdown_node_snd)
  have a2: "snd (drain_node cfg w n s) = s\<lparr>calls := calls s @ [Drain n]\<rparr>"
    by (rule drain_node_snd)
  have a2': "snd (cordon_node cfg w n s) = s\<lparr>calls := calls s @ [Cordon n]\<rparr>"
    by (rule cordon_node_snd)
  have a3: "fst (shutdown_node cfg w n s) \<longleftrightarrow>
        dry_run cfg \<or> skip_shutdown cfg \<or> poweroff_completes w (length (calls s))"
    by (rule shutdown_node_fst)
  have a4: "fst (shutdown_node cfg w n s) \<longrightarrow> n \<in> nodes_shutdown (snd (shutdown_node cfg w n s))"
    by (simp add: shutdown_node_snd)
  have b2: "m \<in> set (listed cfg (priority_shutdown_nodes cfg)) \<and> m \<notin> nodes_shutdown s
        \<and> guard_met cfg Phase3 e \<longrightarrow>
        Shutdown m \<in> set (new_calls s (execute_shutdown_sequence cfg w e s))"
    unfolding new using p3 by (auto simp: shutdown_in_poll_calls)
  have b4: "m \<in> set (listed cfg (secondary_shutdown_nodes cfg)) \<and> m \<notin> nodes_shutdown s
        \<and> guard_met cfg Phase5 e \<longrightarrow>
        Shutdown m \<in> set (new_calls s (execute_shutdown_sequence cfg w e s))"
    unfolding new using p3 p5 by (auto simp: shutdown_in_poll_calls)
  have c1: "always_succeeds cfg w \<and> m \<in> set (listed cfg (priority_shutdown_nodes cfg))
        \<and> guard_met cfg Phase3 e \<longrightarrow> m \<in> nodes_shutdown (execute_shutdown_sequence cfg w e s)"
    unfolding ns using p3 ok by auto
  have c2: "always_succeeds cfg w \<and> m \<in> set (listed cfg (secondary_shutdown_nodes cfg))
        \<and> guard_met cfg Phase5 e \<longrightarrow> m \<in> nodes_shutdown (execute_shutdown_sequence cfg w e s)"
    unfolding ns using p5 ok by auto
  have adv: "advances cfg s (polls cfg w es s)"
    by (rule polls_advances)
  have d: "shutdown_initiated s \<longrightarrow>
        shutdown_initiated (polls cfg w es s)
        \<and> (Cordon m \<in> set (new_calls s (polls cfg w es s)) \<longrightarrow>
             m \<in> set (listed cfg (secondary_shutdown_nodes cfg)) \<and> m \<notin> nodes_shutdown s)"
    using adv advances_new_calls [OF adv, of "Cordon m"] by (auto simp: advances_def)
  have f: "Cordon m \<in> set (new_calls s (execute_shutdown_sequence cfg w e s))
        \<and> m \<notin> set (listed cfg (secondary_shutdown_nodes cfg)) \<longrightarrow>
        \<not> shutdown_initiated s \<and> guard_met cfg Phase1 e
        \<and> m \<in> set (listed cfg (priority_shutdown_nodes cfg))"
    unfolding new by (auto simp: cordon_in_poll_calls)
  note r = poll_repeats [of m cfg s e w]
  note r1 = r [THEN conjunct1]
  note r2 = r [THEN conjunct2, THEN conjunct1]
  note r3 = r [THEN conjunct2, THEN conjunct2, THEN conjunct1]
  note r4 = r [THEN conjunct2, THEN conjunct2, THEN conjunct2]
  show ?thesis
    by (intro conjI) (rule a1 a2 a2' a3 a4 r1 b2 r2 b4 c1 c2 r4 r3 d f)+
qed

theorem failed_attempt_retried_witness:
  "\<not> fst (shutdown_node default_config
             (calm\<lparr>ssh_shutdown := \<lambda>i. if i = 2 then RunRaised else Completed 0\<rparr>) ''pi5-01''
             (phase2 default_config calm 200 (phase1 default_config calm 200 initial)))
   \<and> ''pi5-01'' \<notin> nodes_shutdown
        (polls default_config (calm\<lparr>ssh_shutdown := \<lambda>i. if i = 2 then RunRaised else Completed 0\<rparr>)
           [200] initial)
   \<and> Drain ''pi5-01'' \<in> set (new_calls
        (polls default_config (calm\<lparr>ssh_shutdown := \<lambda>i. if i = 2 then RunRaised else Completed 0\<rparr>)
           [200] initial)
        (execute_shutdown_sequence default_config calm 215
          (polls default_config (calm\<lparr>ssh_shutdown := \<lambda>i. if i = 2 then RunRaised else Completed 0\<rparr>)
             [200] initial)))
   \<and> Shutdown ''pi5-01'' \<in> set (new_calls
        (polls default_config (calm\<lparr>ssh_shutdown := \<lambda>i. if i = 2 then RunRaised else Completed 0\<rparr>)
           [200] initial)
        (execute_shutdown_sequence default_config calm 215
          (polls default_config (calm\<lparr>ssh_shutdown := \<lambda>i. if i = 2 then RunRaised else Completed 0\<rparr>)
             [200] initial)))
   \<and> ''pi5-01'' \<in> nodes_shutdown
        (execute_shutdown_sequence default_config calm 215
          (polls default_config (calm\<lparr>ssh_shutdown := \<lambda>i. if i = 2 then RunRaised else Completed 0\<rparr>)
             [200] initial))
   \<and> \<not> fst (cordon_node default_config (calm\<lparr>patch_node := \<lambda>i. False\<rparr>) ''pi4-01''
              (polls default_config calm [200] initial))
   \<and> Cordon ''pi4-01'' \<in> set (new_calls
        (polls default_config (calm\<lparr>patch_node := \<lambda>i. False\<rparr>) [310] initial)
        (execute_shutdown_sequence default_config calm 325
          (polls default_config (calm\<lparr>patch_node := \<lambda>i. False\<rparr>) [310] initial)))
   \<and> Drain ''pi4-01'' \<in> set (new_calls
        (polls default_config (calm\<lparr>patch_node := \<lambda>i. False\<rparr>) [310] initial)
        (execute_shutdown_sequence default_config calm 325
          (polls default_config (calm\<lparr>patch_node := \<lambda>i. False\<rparr>) [310] initial)))
   \<and> Cordon ''pi5-01'' \<in> set (new_calls initial
        (execute_shutdown_sequence default_config (calm\<lparr>patch_node := \<lambda>i. False\<rparr>) 35 initial))
   \<and> shutdown_initiated
        (execute_shutdown_sequence default_config (calm\<lparr>patch_node := \<lambda>i. False\<rparr>) 35 initial)
   \<and> Cordon ''pi5-01'' \<notin> set (new_calls
        (execute_shutdown_sequence default_config (calm\<lparr>patch_node := \<lambda>i. False\<rparr>) 35 initial)
        (polls default_config calm [50, 65]
          (execute_shutdown_sequence default_config (calm\<lparr>patch_node := \<lambda>i. False\<rparr>) 35 initial)))"
proof -
  let ?wf = "calm\<lparr>ssh_shutdown := \<lambda>i. if i = 2 then RunRaised else Completed 0\<rparr>"
  let ?wc = "calm\<lparr>patch_node := \<lambda>i. False\<rparr>"
  let ?s1 = "polls default_config ?wf [200] initial"
  let ?s2 = "polls default_config ?wc [310] initial"
  let ?s3 = "execute_shutdown_sequence default_config ?wc 35 initial"
  have fails: "\<not> fst (shutdown_node default_config ?wf ''pi5-01''
             (phase2 default_config calm 200 (phase1 default_config calm 200 initial)))"
    "\<not> fst (cordon_node default_config ?wc ''pi4-01'' (polls default_config calm [200] initial))"
    by (simp_all add: run_simps)
  have h: "''pi5-01'' \<in> set (listed default_config (priority_shutdown_nodes default_config))"
    "''pi5-01'' \<notin> nodes_shutdown ?s1"
    "guard_met default_config Phase2 215" "guard_met default_config Phase3 215"
    by (simp_all add: run_simps)
  have ok: "always_succeeds default_config calm"
    by (simp add: always_succeeds_def poweroff_completes_def calm_def)
  have q: "''pi4-01'' \<in> set (listed default_config (secondary_shutdown_nodes default_config))"
    "''pi4-01'' \<notin> set (listed default_config (priority_shutdown_nodes default_config))"
    "''pi4-01'' \<notin> nodes_shutdown ?s2"
    "guard_met default_config Phase4 325"
    by (simp_all add: run_simps)
  have c: "\<not> shutdown_initiated initial" "guard_met default_config Phase1 35"
    "''pi5-01'' \<notin> set (listed default_config (secondary_shutdown_nodes default_config))"
    by (simp_all add: run_simps)
  note t1 = failed_attempt_retried [of default_config calm "''pi5-01''" ?s1 "''pi5-01''" 215 "[]"]
  note t2 = failed_attempt_retried [of default_config calm "''pi4-01''" ?s2 "''pi4-01''" 325 "[]"]
  note t3 = failed_attempt_retried [of default_config ?wc "''pi5-01''" initial "''pi5-01''" 35 "[]"]
  note t4 = failed_attempt_retried [of default_config calm "''pi5-01''" ?s3 "''pi5-01''" 50 "[50, 65]"]
  have w1: "Drain ''pi5-01'' \<in> set (new_calls ?s1 (execute_shutdown_sequence default_config calm 215 ?s1))"
    using t1 [THEN conjunct2, THEN conjunct2, THEN conjunct2, THEN conjunct2, THEN conjunct2, THEN conjunct1] h by blast
  have w1': "Shutdown ''pi5-01'' \<in> set (new_calls ?s1 (execute_shutdown_sequence default_config calm 215 ?s1))"
    using t1 [THEN conjunct2, THEN conjunct2, THEN conjunct2, THEN conjunct2, THEN conjunct2, THEN conjunct2, THEN conjunct1] h by blast
  have w1'': "''pi5-01'' \<in> nodes_shutdown (execute_shutdown_sequence default_config calm 215 ?s1)"
    using t1 [THEN conjunct2, THEN conjunct2, THEN conjunct2, THEN conjunct2, THEN conjunct2, THEN conjunct2, THEN conjunct2, THEN conjunct2, THEN conjunct2, THEN conjunct1] h ok by blast
  have w2: "Cordon ''pi4-01'' \<in> set (new_calls ?s2 (execute_shutdown_sequence default_config calm 325 ?s2))
      \<and> Drain ''pi4-01'' \<in> set (new_calls ?s2 (execute_shutdown_sequence default_config calm 325 ?s2))"
    using t2 [THEN conjunct2, THEN conjunct2, THEN conjunct2, THEN conjunct2, THEN conjunct2, THEN conjunct2, THEN conjunct2, THEN conjunct1] q by blast
  have w3: "Cordon ''pi5-01'' \<in> set (new_calls initial ?s3)"
    using t3 [THEN conjunct2, THEN conjunct2, THEN conjunct2, THEN conjunct2, THEN conjunct2, THEN conjunct2, THEN conjunct2, THEN conjunct2, THEN conjunct2, THEN conjunct2, THEN conjunct2, THEN conjunct1] h(1) c by blast
  have w3': "shutdown_initiated ?s3"
    using t3 [THEN conjunct2, THEN conjunct2, THEN conjunct2, THEN conjunct2, THEN conjunct2, THEN conjunct2, THEN conjunct2, THEN conjunct2, THEN conjunct2, THEN conjunct2, THEN conjunct2, THEN conjunct2, THEN conjunct1] c by blast
  have w4: "Cordon ''pi5-01'' \<notin> set (new_calls ?s3 (polls default_config calm [50, 65] ?s3))"
    using t4 [THEN conjunct2, THEN conjunct2, THEN conjunct2, THEN conjunct2, THEN conjunct2, THEN conjunct2, THEN conjunct2, THEN conjunct2, THEN conjunct2, THEN conjunct2, THEN conjunct2, THEN conjunct2, THEN conjunct2, THEN conjunct1] w3' c(3) by blast
  show ?thesis
    using fails h(2) w1 w1' w1'' w2 w3 w3' w4 by (intro conjI) blast+
qed

subsection \<open>C3: the critical node is never actuated\<close>

text \<open>
  C3: whatever the elapsed time, the collaborators' answers and the sequence of polls, no
  invocation of cordon, uncordon, drain or power-off names the configured critical node:
  not in one run of the shutdown sequence, not in the recovery, and not in any run of the
  monitoring loop.
\<close>

theorem critical_node_never_actuated:
  "(\<forall>ev \<in> set (new_calls s (execute_shutdown_sequence cfg w e s)). event_node ev \<noteq> critical_node cfg)
   \<and> (\<forall>ev \<in> set (new_calls s (restore_power_procedures cfg w s)). event_node ev \<noteq> critical_node cfg)
   \<and> (\<forall>ev \<in> set (new_calls s (run pyfloat cfg w inps s)). event_node ev \<noteq> critical_node cfg)"
  using spares_new_calls [OF advances_spares [OF execute_advances]]
    spares_new_calls [OF restore_spares] spares_new_calls [OF run_spares]
  by blast


theorem critical_node_never_actuated_witness:
  "new_calls initial
     (run (\<lambda>s. if s = ''12.5'' then Some (Finite (25 / 2)) else None)
        (default_config\<lparr>priority_shutdown_nodes := [''pi4-02'', '' pi5-01 '']\<rparr>)
        (calm\<lparr>list_node := \<lambda>i. Some
           [\<lparr>node_name = ''pi4-02'', conditions = Some [(''Ready'', ''True'')], unschedulable = Some True\<rparr>,
            \<lparr>node_name = ''pi5-01'', conditions = Some [(''Ready'', ''True'')], unschedulable = Some True\<rparr>]\<rparr>)
        [\<lparr>sensor_data = None, now_onset = 1000, now_elapsed = 1000\<rparr>,
         \<lparr>sensor_data = None, now_onset = 1100, now_elapsed = 1100\<rparr>,
         \<lparr>sensor_data = Some [(''state'', JString ''12.5'')], now_onset = 1200, now_elapsed = 1200\<rparr>]
        initial)
    = [Cordon ''pi5-01'', Drain ''pi5-01'', Uncordon ''pi5-01'']
   \<and> Cordon ''pi4-02'' \<notin> set (new_calls initial
     (run (\<lambda>s. if s = ''12.5'' then Some (Finite (25 / 2)) else None)
        (default_config\<lparr>priority_shutdown_nodes := [''pi4-02'', '' pi5-01 '']\<rparr>)
        (calm\<lparr>list_node := \<lambda>i. Some
           [\<lparr>node_name = ''pi4-02'', conditions = Some [(''Ready'', ''True'')], unschedulable = Some True\<rparr>,
            \<lparr>node_name = ''pi5-01'', conditions = Some [(''Ready'', ''True'')], unschedulable = Some True\<rparr>]\<rparr>)
        [\<lparr>sensor_data = None, now_onset = 1000, now_elapsed = 1000\<rparr>,
         \<lparr>sensor_data = None, now_onset = 1100, now_elapsed = 1100\<rparr>,
         \<lparr>sensor_data = Some [(''state'', JString ''12.5'')], now_onset = 1200, now_elapsed = 1200\<rparr>]
        initial))
   \<and> Uncordon ''pi4-02'' \<notin> set (new_calls initial
     (run (\<lambda>s. if s = ''12.5'' then Some (Finite (25 / 2)) else None)
        (default_config\<lparr>priority_shutdown_nodes := [''pi4-02'', '' pi5-01 '']\<rparr>)
        (calm\<lparr>list_node := \<lambda>i. Some
           [\<lparr>node_name = ''pi4-02'', conditions = Some [(''Ready'', ''True'')], unschedulable = Some True\<rparr>,
            \<lparr>node_name = ''pi5-01'', conditions = Some [(''Ready'', ''True'')], unschedulable = Some True\<rparr>]\<rparr>)
        [\<lparr>sensor_data = None, now_onset = 1000, now_elapsed = 1000\<rparr>,
         \<lparr>sensor_data = None, now_onset = 1100, now_elapsed = 1100\<rparr>,
         \<lparr>sensor_data = Some [(''state'', JString ''12.5'')], now_onset = 1200, now_elapsed = 1200\<rparr>]
        initial))"
proof -
  let ?f = "\<lambda>s. if s = ''12.5'' then Some (Finite (25 / 2)) else None"
  let ?cfg = "default_config\<lparr>priority_shutdown_nodes := [''pi4-02'', '' pi5-01 '']\<rparr>"
  let ?w = "calm\<lparr>list_node := \<lambda>i. Some
           [\<lparr>node_name = ''pi4-02'', conditions = Some [(''Ready'', ''True'')], unschedulable = Some True\<rparr>,
            \<lparr>node_name = ''pi5-01'', conditions = Some [(''Ready'', ''True'')], unschedulable = Some True\<rparr>]\<rparr>"
  let ?inps = "[\<lparr>sensor_data = None, now_onset = 1000, now_elapsed = 1000\<rparr>,
         \<lparr>sensor_data = None, now_onset = 1100, now_elapsed = 1100\<rparr>,
         \<lparr>sensor_data = Some [(''state'', JString ''12.5'')], now_onset = 1200, now_elapsed = 1200\<rparr>]"
  have st: "sensor_state [(''state'', JString ''12.5'')] = Inr ''12.5''"
    by (simp add: sensor_state_def lower_def lower_char_def)
  have ev: "new_calls initial (run ?f ?cfg ?w ?inps initial)
      = [Cordon ''pi5-01'', Drain ''pi5-01'', Uncordon ''pi5-01'']"
    by (simp add: run_def tick_def is_power_available_def st restore_power_procedures_def
          reset_state_def is_ready_def run_simps)
  have crit: "critical_node ?cfg = ''pi4-02''"
    by (simp add: default_config_def)
  have "\<forall>ev \<in> set (new_calls initial (run ?f ?cfg ?w ?inps initial)). event_node ev \<noteq> ''pi4-02''"
    using critical_node_never_actuated [of initial ?cfg ?w 0 ?f ?inps] unfolding crit by blast
  then have "Cordon ''pi4-02'' \<notin> set (new_calls initial (run ?f ?cfg ?w ?inps initial))"
    "Uncordon ''pi4-02'' \<notin> set (new_calls initial (run ?f ?cfg ?w ?inps initial))"
    by fastforce+
  with ev show ?thesis
    by blast
qed

subsection \<open>C4: the order of the stages\<close>

text \<open>
  C4, as stated, fails: no stage is tracked, and each phase looks at the elapsed time and
  at \<open>nodes_shutdown\<close> only. With \<open>shutdown_pi5_01_delay\<close> set to 10 s, the poll at 15 s
  powers the priority node off although it was never cordoned or drained.
\<close>

theorem power_off_undrained_counterexample:
  "calls (polls (default_config\<lparr>shutdown_pi5_01_delay := 10\<rparr>) calm [15] initial)
     = [Shutdown ''pi5-01'']
   \<and> \<not> preceded Drain Shutdown []
         (new_calls initial (polls (default_config\<lparr>shutdown_pi5_01_delay := 10\<rparr>) calm [15] initial))"
  by (simp add: run_simps)

text \<open>
  C4, amended. In the polls of one outage, starting where phase 1 has not run: for every
  configuration a drain of a node is invoked only after a cordon of that node has been
  invoked; and when \<open>shutdown_pi5_01_delay\<close> is at least 60 s and \<open>shutdown_others_delay\<close>
  at least 300 s, a power-off of a node is invoked only after a drain of that node has
  been invoked. What precedes is the invocation, whether it succeeded or not.
\<close>

theorem stages_in_order:
  "(\<not> shutdown_initiated s \<longrightarrow>
      preceded Cordon Drain [] (new_calls s (polls cfg w es s)))
   \<and> (60 \<le> shutdown_pi5_01_delay cfg \<and> 300 \<le> shutdown_others_delay cfg \<longrightarrow>
      preceded Drain Shutdown [] (new_calls s (polls cfg w es s)))"
  using polls_cordon_first [of s cfg "[]" w es] polls_drain_first [of cfg "[]" s w es]
  by blast

theorem stages_in_order_witness:
  "\<not> shutdown_initiated initial
   \<and> 60 \<le> shutdown_pi5_01_delay default_config \<and> 300 \<le> shutdown_others_delay default_config
   \<and> new_calls initial (polls default_config calm [45, 75, 200, 310] initial)
       = [Cordon ''pi5-01'', Drain ''pi5-01'', Drain ''pi5-01'', Shutdown ''pi5-01'',
          Cordon ''pi4-01'', Drain ''pi4-01'', Cordon ''pi5-02'', Drain ''pi5-02'']
   \<and> preceded Cordon Drain [] (new_calls initial (polls default_config calm [45, 75, 200, 310] initial))
   \<and> preceded Drain Shutdown [] (new_calls initial (polls default_config calm [45, 75, 200, 310] initial))"
proof -
  have h: "\<not> shutdown_initiated initial"
    "60 \<le> shutdown_pi5_01_delay default_config \<and> 300 \<le> shutdown_others_delay default_config"
    by (simp_all add: initial_def default_config_def)
  have ev: "new_calls initial (polls default_config calm [45, 75, 200, 310] initial)
       = [Cordon ''pi5-01'', Drain ''pi5-01'', Drain ''pi5-01'', Shutdown ''pi5-01'',
          Cordon ''pi4-01'', Drain ''pi4-01'', Cordon ''pi5-02'', Drain ''pi5-02'']"
    by (simp add: run_simps)
  show ?thesis
    using h ev stages_in_order [of initial default_config calm "[45, 75, 200, 310]"]
    by blast
qed

subsection \<open>C5: when power is judged available\<close>

text \<open>
  On the observations whose state is a string or is missing, the function does what C5
  says. For a \<open>float\<close> that rejects the empty string and the words \<open>unavailable\<close>,
  \<open>unknown\<close> and \<open>none\<close> (as Python's does): power is judged available exactly when the
  monitor is not simulating an outage, a reading was obtained, and its state (in lower
  case) parses to a finite number greater than zero or to positive infinity; the function
  raises exactly when a reading with a state that is no string is inspected; in every
  other case power is judged unavailable.
\<close>

lemma available_iff_positive_reading:
  assumes "pyfloat [] = None" and "pyfloat ''unavailable'' = None"
    and "pyfloat ''unknown'' = None" and "pyfloat ''none'' = None"
  shows "(is_power_available pyfloat cfg obs = Inr True \<longleftrightarrow>
            test_mode cfg \<noteq> ''simulate_outage'' \<and>
            (\<exists>d st r. obs = Some d \<and> sensor_state d = Inr st \<and>
               (pyfloat st = Some (Finite r) \<and> 0 < r \<or> pyfloat st = Some PosInf)))
       \<and> (is_power_available pyfloat cfg obs = Inl AttributeError \<longleftrightarrow>
            test_mode cfg \<noteq> ''simulate_outage'' \<and>
            (\<exists>d. obs = Some d \<and> d \<noteq> [] \<and> sensor_state d = Inl AttributeError))"
proof (cases obs)
  case None
  then show ?thesis by (simp add: is_power_available_def)
next
  case (Some d)
  have pos: "gt_zero x \<longleftrightarrow> (\<exists>r. x = Finite r \<and> 0 < r) \<or> x = PosInf" for x
    by (cases x) auto
  have empty: "d = [] \<Longrightarrow> sensor_state d = Inr []"
    by (simp add: sensor_state_def lower_def)
  show ?thesis
  proof (cases "sensor_state d")
    case (Inl e)
    then have "e = AttributeError" by (cases e) simp
    with Inl Some empty show ?thesis
      by (auto simp: is_power_available_def)
  next
    case (Inr st)
    with Some assms empty show ?thesis
      by (auto simp: is_power_available_def pos split: option.splits)
  qed
qed


subsection \<open>C6: which nodes the recovery uncordons\<close>

text \<open>
  When the listing succeeds and every listed non-critical node carries conditions, the
  loop does what C6 says: uncordon is invoked for exactly the listed nodes that are not
  critical, are reported ready and have scheduling disabled, once each and in the order
  of the listing.
\<close>

lemma uncordon_exactly_recovered:
  assumes "list_node w (length (calls s)) = Some items"
    and "\<forall>nd \<in> set items. node_name nd \<noteq> critical_node cfg \<longrightarrow> conditions nd \<noteq> None"
  shows "new_calls s (restore_power_procedures cfg w s) =
           map (\<lambda>nd. Uncordon (node_name nd)) (filter (recovered cfg) items)"
  using assms by (simp add: new_calls_def restore_calls examined_all)

text \<open>
  C6 fails on the code when a listed node carries no conditions. Iterating over them
  raises; \<open>uncordon_node\<close> guards its own call, but the loop over the nodes has no guard
  of its own, so the handler around the whole loop ends it. A node listed after the one
  without conditions is not uncordoned although it is not critical, is reported ready and
  has scheduling disabled; listed before it, the same node is uncordoned.
\<close>

theorem uncordon_aborted_by_missing_conditions:
  "recovered default_config
     \<lparr>node_name = ''pi5-01'', conditions = Some [(''Ready'', ''True'')], unschedulable = Some True\<rparr>
   \<and> new_calls initial
       (restore_power_procedures default_config
          (calm\<lparr>list_node := \<lambda>i. Some
             [\<lparr>node_name = ''pi4-01'', conditions = None, unschedulable = None\<rparr>,
              \<lparr>node_name = ''pi5-01'', conditions = Some [(''Ready'', ''True'')],
                unschedulable = Some True\<rparr>]\<rparr>)
          initial) = []
   \<and> new_calls initial
       (restore_power_procedures default_config
          (calm\<lparr>list_node := \<lambda>i. Some
             [\<lparr>node_name = ''pi5-01'', conditions = Some [(''Ready'', ''True'')],
                unschedulable = Some True\<rparr>,
              \<lparr>node_name = ''pi4-01'', conditions = None, unschedulable = None\<rparr>]\<rparr>)
          initial) = [Uncordon ''pi5-01'']"
  by (simp add: restore_power_procedures_def reset_state_def recovered_def is_ready_def run_simps)

subsection \<open>C7: recovery always resets the tracking state\<close>

text \<open>
  C7: whatever the collaborators answer (the listing may raise, an uncordon may fail),
  \<open>restore_power_procedures\<close> leaves no outage start, the flag \<open>shutdown_initiated\<close> unset
  and \<open>nodes_shutdown\<close> empty; it invokes uncordon for a name at most as often as the
  listing holds it, so a failed uncordon is not repeated; a following iteration that sees
  power available changes nothing. The iteration of \<open>run\<close> that sees power return during
  an outage ends with the same reset state, on either of its two branches.
\<close>

theorem recovery_resets_state:
  "power_outage_start (restore_power_procedures cfg w s) = None
   \<and> \<not> shutdown_initiated (restore_power_procedures cfg w s)
   \<and> nodes_shutdown (restore_power_procedures cfg w s) = {}
   \<and> count_list (new_calls s (restore_power_procedures cfg w s)) (Uncordon m)
        \<le> (case list_node w (length (calls s)) of
              None \<Rightarrow> 0
            | Some items \<Rightarrow> count_list (map node_name items) m)
   \<and> (is_power_available pyfloat cfg (sensor_data inp) = Inr True \<longrightarrow>
        tick pyfloat cfg w' inp (restore_power_procedures cfg w s) = restore_power_procedures cfg w s)
   \<and> (is_power_available pyfloat cfg (sensor_data inp) = Inr True \<and> power_outage_start s \<noteq> None \<longrightarrow>
        power_outage_start (tick pyfloat cfg w inp s) = None
        \<and> \<not> shutdown_initiated (tick pyfloat cfg w inp s)
        \<and> nodes_shutdown (tick pyfloat cfg w inp s) = {})"
proof -
  have cnt: "count_list (new_calls s (restore_power_procedures cfg w s)) (Uncordon m)
        \<le> (case list_node w (length (calls s)) of
              None \<Rightarrow> 0
            | Some items \<Rightarrow> count_list (map node_name items) m)"
    by (simp add: new_calls_def restore_calls examined_def count_uncordon_le split: option.splits)
  have idle: "is_power_available pyfloat cfg (sensor_data inp) = Inr True \<Longrightarrow>
        tick pyfloat cfg w' inp (restore_power_procedures cfg w s) = restore_power_procedures cfg w s"
    by (simp add: tick_def restore_fields)
  have restored: "is_power_available pyfloat cfg (sensor_data inp) = Inr True \<Longrightarrow> power_outage_start s \<noteq> None \<Longrightarrow>
        power_outage_start (tick pyfloat cfg w inp s) = None
        \<and> \<not> shutdown_initiated (tick pyfloat cfg w inp s)
        \<and> nodes_shutdown (tick pyfloat cfg w inp s) = {}"
    by (auto simp: tick_def restore_fields)
  show ?thesis
    using cnt idle restored by (simp add: restore_fields)
qed


theorem recovery_resets_state_witness:
  "is_power_available (\<lambda>s. if s = ''12.5'' then Some (Finite (25 / 2)) else None) default_config
     (sensor_data \<lparr>sensor_data = Some [(''state'', JString ''12.5'')], now_onset = 1200, now_elapsed = 1200\<rparr>)
     = Inr True
   \<and> power_outage_start (initial\<lparr>power_outage_start := Some 1000, shutdown_initiated := True,
                                   nodes_shutdown := {''pi5-01''}\<rparr>) \<noteq> None
   \<and> power_outage_start
        (tick (\<lambda>s. if s = ''12.5'' then Some (Finite (25 / 2)) else None) default_config
           (calm\<lparr>patch_node := \<lambda>i. False, list_node := \<lambda>i. Some
              [\<lparr>node_name = ''pi5-01'', conditions = Some [(''Ready'', ''True'')],
                unschedulable = Some True\<rparr>]\<rparr>)
           \<lparr>sensor_data = Some [(''state'', JString ''12.5'')], now_onset = 1200, now_elapsed = 1200\<rparr>
           (initial\<lparr>power_outage_start := Some 1000, shutdown_initiated := True,
                    nodes_shutdown := {''pi5-01''}\<rparr>)) = None
   \<and> \<not> shutdown_initiated
        (tick (\<lambda>s. if s = ''12.5'' then Some (Finite (25 / 2)) else None) default_config
           (calm\<lparr>patch_node := \<lambda>i. False, list_node := \<lambda>i. Some
              [\<lparr>node_name = ''pi5-01'', conditions = Some [(''Ready'', ''True'')],
                unschedulable = Some True\<rparr>]\<rparr>)
           \<lparr>sensor_data = Some [(''state'', JString ''12.5'')], now_onset = 1200, now_elapsed = 1200\<rparr>
           (initial\<lparr>power_outage_start := Some 1000, shutdown_initiated := True,
                    nodes_shutdown := {''pi5-01''}\<rparr>))
   \<and> nodes_shutdown
        (tick (\<lambda>s. if s = ''12.5'' then Some (Finite (25 / 2)) else None) default_config
           (calm\<lparr>patch_node := \<lambda>i. False, list_node := \<lambda>i. Some
              [\<lparr>node_name = ''pi5-01'', conditions = Some [(''Ready'', ''True'')],
                unschedulable = Some True\<rparr>]\<rparr>)
           \<lparr>sensor_data = Some [(''state'', JString ''12.5'')], now_onset = 1200, now_elapsed = 1200\<rparr>
           (initial\<lparr>power_outage_start := Some 1000, shutdown_initiated := True,
                    nodes_shutdown := {''pi5-01''}\<rparr>)) = {}
   \<and> count_list
        (new_calls (initial\<lparr>power_outage_start := Some 1000, shutdown_initiated := True,
                            nodes_shutdown := {''pi5-01''}\<rparr>)
           (restore_power_procedures default_config
              (calm\<lparr>patch_node := \<lambda>i. False, list_node := \<lambda>i. Some
                 [\<lparr>node_name = ''pi5-01'', conditions = Some [(''Ready'', ''True'')],
                   unschedulable = Some True\<rparr>]\<rparr>)
              (initial\<lparr>power_outage_start := Some 1000, shutdown_initiated := True,
                       nodes_shutdown := {''pi5-01''}\<rparr>)))
        (Uncordon ''pi5-01'') \<le> 1"
proof -
  let ?f = "\<lambda>s. if s = ''12.5'' then Some (Finite (25 / 2)) else None"
  let ?w = "calm\<lparr>patch_node := \<lambda>i. False, list_node := \<lambda>i. Some
              [\<lparr>node_name = ''pi5-01'', conditions = Some [(''Ready'', ''True'')],
                unschedulable = Some True\<rparr>]\<rparr>"
  let ?inp = "\<lparr>sensor_data = Some [(''state'', JString ''12.5'')], now_onset = 1200, now_elapsed = 1200\<rparr>"
  let ?s = "initial\<lparr>power_outage_start := Some 1000, shutdown_initiated := True,
                    nodes_shutdown := {''pi5-01''}\<rparr>"
  have st: "sensor_state [(''state'', JString ''12.5'')] = Inr ''12.5''"
    by (simp add: sensor_state_def lower_def lower_char_def)
  have h: "is_power_available ?f default_config (sensor_data ?inp) = Inr True"
    "power_outage_start ?s \<noteq> None"
    by (simp_all add: is_power_available_def st default_config_def)
  have l: "list_node ?w (length (calls ?s)) = Some
              [\<lparr>node_name = ''pi5-01'', conditions = Some [(''Ready'', ''True'')],
                unschedulable = Some True\<rparr>]"
    by simp
  show ?thesis
    using h recovery_resets_state [of default_config ?w ?s "''pi5-01''" ?f ?inp ?w]
    unfolding l by simp
qed

subsection \<open>C8: the guards are monotone in the elapsed time\<close>

text \<open>
  C8: for elapsed times \<open>e1 < e2\<close> and a fixed configuration, every phase whose guard is
  met at \<open>e1\<close> has its guard met at \<open>e2\<close>.
\<close>

theorem due_phases_monotone:
  "e1 < e2 \<Longrightarrow> set (due_phases cfg e1) \<subseteq> set (due_phases cfg e2)"
  using guard_met_mono [of e1 e2 cfg] by (auto simp: due_phases_def)

theorem due_phases_monotone_witness:
  "(185::rat) < 310 \<and> set (due_phases default_config 185) = {Phase1, Phase2, Phase3}
   \<and> set (due_phases default_config 310) = {Phase1, Phase2, Phase3, Phase4}
   \<and> set (due_phases default_config 185) \<subseteq> set (due_phases default_config 310)"
  using due_phases_monotone [of 185 310 default_config]
  by (simp add: due_phases_def default_config_def)

subsection \<open>C9: the thresholds of the five phases\<close>

text \<open>
  C9, as stated, fails: the configuration has two durations only. With both set to 5 s,
  at 10 s the guards of phases 3 and 5 are met and the nodes are powered off, while the
  guards of phases 1, 2 and 4 are not met; with both set to 1000 s, at 300 s the guards of
  phases 1, 2 and 4 are met. The thresholds of phases 1, 2 and 4 are no configured value.
\<close>

theorem fixed_thresholds_counterexample:
  "due_phases (default_config\<lparr>shutdown_pi5_01_delay := 5, shutdown_others_delay := 5\<rparr>) 10
     = [Phase3, Phase5]
   \<and> calls (execute_shutdown_sequence
        (default_config\<lparr>shutdown_pi5_01_delay := 5, shutdown_others_delay := 5\<rparr>) calm 10 initial)
     = [Shutdown ''pi5-01'', Shutdown ''pi4-01'', Shutdown ''pi5-02'']
   \<and> due_phases (default_config\<lparr>shutdown_pi5_01_delay := 1000, shutdown_others_delay := 1000\<rparr>) 300
     = [Phase1, Phase2, Phase4]"
  by (simp add: due_phases_def run_simps)

text \<open>
  C9, amended. Two thresholds are configured, \<open>shutdown_pi5_01_delay\<close> and
  \<open>shutdown_others_delay\<close>; the other three are the constants 30, 60 and 300. In a run of the
  sequence from a state where phase 1 has not run, for a priority node \<open>p\<close> and a secondary
  node \<open>q\<close> (each in one tier only, neither shut down): \<open>p\<close> is cordoned exactly when
  30 s have elapsed, drained exactly when 60 s have, powered off exactly when
  \<open>shutdown_pi5_01_delay\<close> has; \<open>q\<close> is cordoned and drained exactly when 300 s have
  elapsed, and powered off exactly when \<open>shutdown_others_delay\<close> has.
\<close>

theorem thresholds_of_phases:
  assumes "p \<in> set (listed cfg (priority_shutdown_nodes cfg))"
    and "p \<notin> set (listed cfg (secondary_shutdown_nodes cfg))"
    and "q \<in> set (listed cfg (secondary_shutdown_nodes cfg))"
    and "q \<notin> set (listed cfg (priority_shutdown_nodes cfg))"
    and "\<not> shutdown_initiated s" and "p \<notin> nodes_shutdown s" and "q \<notin> nodes_shutdown s"
  shows "(Cordon p \<in> set (new_calls s (execute_shutdown_sequence cfg w e s)) \<longleftrightarrow> e \<ge> 30)
     \<and> (Drain p \<in> set (new_calls s (execute_shutdown_sequence cfg w e s)) \<longleftrightarrow> e \<ge> 60)
     \<and> (Shutdown p \<in> set (new_calls s (execute_shutdown_sequence cfg w e s))
          \<longleftrightarrow> e \<ge> of_int (shutdown_pi5_01_delay cfg))
     \<and> (Cordon q \<in> set (new_calls s (execute_shutdown_sequence cfg w e s)) \<longleftrightarrow> e \<ge> 300)
     \<and> (Drain q \<in> set (new_calls s (execute_shutdown_sequence cfg w e s)) \<longleftrightarrow> e \<ge> 300)
     \<and> (Shutdown q \<in> set (new_calls s (execute_shutdown_sequence cfg w e s))
          \<longleftrightarrow> e \<ge> of_int (shutdown_others_delay cfg))"
proof -
  from execute_shape [of cfg w e s] obtain ms3 D3 ms5 D5 where
    eq: "execute_shutdown_sequence cfg w e s =
       s\<lparr>shutdown_initiated := shutdown_initiated s \<or> guard_met cfg Phase1 e,
         calls := calls s @ poll_calls cfg e s ms3 D3 ms5,
         nodes_shutdown := nodes_shutdown s \<union> D3 \<union> D5\<rparr>"
    and p3: "set ms3 \<subseteq> {m \<in> set (listed cfg (priority_shutdown_nodes cfg)). m \<notin> nodes_shutdown s}"
      "D3 \<subseteq> set ms3" "\<not> guard_met cfg Phase3 e \<longrightarrow> ms3 = []"
      "guard_met cfg Phase3 e \<longrightarrow>
          (\<forall>m \<in> set (listed cfg (priority_shutdown_nodes cfg)). m \<in> nodes_shutdown s \<or> m \<in> set ms3)"
    and p5: "set ms5 \<subseteq> {m \<in> set (listed cfg (secondary_shutdown_nodes cfg)). m \<notin> nodes_shutdown s \<union> D3}"
      "\<not> guard_met cfg Phase5 e \<longrightarrow> ms5 = []"
      "guard_met cfg Phase5 e \<longrightarrow>
          (\<forall>m \<in> set (listed cfg (secondary_shutdown_nodes cfg)).
             m \<in> nodes_shutdown s \<union> D3 \<or> m \<in> set ms5)"
    by blast
  have new: "new_calls s (execute_shutdown_sequence cfg w e s) = poll_calls cfg e s ms3 D3 ms5"
    by (simp add: eq new_calls_def)
  have qD: "q \<notin> D3" "p \<notin> set ms5" "q \<notin> set ms3"
    using assms p3 p5 by auto
  have c1: "Cordon p \<in> set (poll_calls cfg e s ms3 D3 ms5) \<longleftrightarrow> e \<ge> 30"
    using assms by (simp add: cordon_in_poll_calls)
  have c2: "Drain p \<in> set (poll_calls cfg e s ms3 D3 ms5) \<longleftrightarrow> e \<ge> 60"
    using assms by (simp add: drain_in_poll_calls)
  have c3: "Shutdown p \<in> set (poll_calls cfg e s ms3 D3 ms5) \<longleftrightarrow> e \<ge> of_int (shutdown_pi5_01_delay cfg)"
    using assms p3 qD by (auto simp: shutdown_in_poll_calls)
  have c4: "Cordon q \<in> set (poll_calls cfg e s ms3 D3 ms5) \<longleftrightarrow> e \<ge> 300"
    using assms qD by (simp add: cordon_in_poll_calls)
  have c5: "Drain q \<in> set (poll_calls cfg e s ms3 D3 ms5) \<longleftrightarrow> e \<ge> 300"
    using assms qD by (simp add: drain_in_poll_calls)
  have c6: "Shutdown q \<in> set (poll_calls cfg e s ms3 D3 ms5) \<longleftrightarrow> e \<ge> of_int (shutdown_others_delay cfg)"
    using assms p5 qD by (auto simp: shutdown_in_poll_calls)
  show ?thesis
    unfolding new using c1 c2 c3 c4 c5 c6 by blast
qed

theorem thresholds_of_phases_witness:
  "(Cordon ''pi5-01'' \<in> set (new_calls initial (execute_shutdown_sequence default_config calm 45 initial))
      \<longleftrightarrow> (45::rat) \<ge> 30)
   \<and> (Drain ''pi5-01'' \<in> set (new_calls initial (execute_shutdown_sequence default_config calm 45 initial))
      \<longleftrightarrow> (45::rat) \<ge> 60)
   \<and> (Shutdown ''pi5-01'' \<in> set (new_calls initial (execute_shutdown_sequence default_config calm 45 initial))
      \<longleftrightarrow> (45::rat) \<ge> of_int (shutdown_pi5_01_delay default_config))
   \<and> (Cordon ''pi4-01'' \<in> set (new_calls initial (execute_shutdown_sequence default_config calm 45 initial))
      \<longleftrightarrow> (45::rat) \<ge> 300)
   \<and> (Drain ''pi4-01'' \<in> set (new_calls initial (execute_shutdown_sequence default_config calm 45 initial))
      \<longleftrightarrow> (45::rat) \<ge> 300)
   \<and> (Shutdown ''pi4-01'' \<in> set (new_calls initial (execute_shutdown_sequence default_config calm 45 initial))
      \<longleftrightarrow> (45::rat) \<ge> of_int (shutdown_others_delay default_config))"
proof -
  have h: "''pi5-01'' \<in> set (listed default_config (priority_shutdown_nodes default_config))"
    "''pi5-01'' \<notin> set (listed default_config (secondary_shutdown_nodes default_config))"
    "''pi4-01'' \<in> set (listed default_config (secondary_shutdown_nodes default_config))"
    "''pi4-01'' \<notin> set (listed default_config (priority_shutdown_nodes default_config))"
    "\<not> shutdown_initiated initial" "''pi5-01'' \<notin> nodes_shutdown initial"
    "''pi4-01'' \<notin> nodes_shutdown initial"
    by (simp_all add: listed_def default_config_def initial_def strip_def is_space_def)
  show ?thesis
    by (rule thresholds_of_phases [OF h])
qed

subsection \<open>C10: a power-off whose command returns is recorded, whatever its exit status\<close>

text \<open>
  C10: outside dry-run and skip mode, when the node has an internal address and the
  \<open>ssh\<close> command returns (with any exit status \<open>rc\<close>, zero or not), \<open>shutdown_node\<close> reports
  success and adds the node to \<open>nodes_shutdown\<close>; in whatever polls follow, the node stays
  recorded and its power-off is not invoked again.
\<close>

theorem completed_shutdown_recorded:
  assumes "\<not> dry_run cfg" and "\<not> skip_shutdown cfg"
    and "read_node w (length (calls s)) = Some addresses"
    and "internal_ip addresses = Some node_ip" and "node_ip \<noteq> []"
    and "ssh_shutdown w (length (calls s)) = Completed rc"
  shows "shutdown_node cfg w n s =
           (True, s\<lparr>calls := calls s @ [Shutdown n], nodes_shutdown := insert n (nodes_shutdown s)\<rparr>)
         \<and> n \<in> nodes_shutdown (polls cfg w' es (snd (shutdown_node cfg w n s)))
         \<and> Shutdown n \<notin> set (new_calls (snd (shutdown_node cfg w n s))
                                (polls cfg w' es (snd (shutdown_node cfg w n s))))"
proof -
  let ?s1 = "s\<lparr>calls := calls s @ [Shutdown n], nodes_shutdown := insert n (nodes_shutdown s)\<rparr>"
  have eq: "shutdown_node cfg w n s = (True, ?s1)"
    using assms by (simp add: shutdown_node_def Let_def)
  have adv: "advances cfg ?s1 (polls cfg w' es ?s1)"
    by (rule polls_advances)
  have "n \<in> nodes_shutdown (polls cfg w' es ?s1)"
    using adv by (auto simp: advances_def)
  moreover have "Shutdown n \<notin> set (new_calls ?s1 (polls cfg w' es ?s1))"
    using advances_new_calls [OF adv, of "Shutdown n"] by auto
  ultimately show ?thesis
    by (simp add: eq)
qed

theorem completed_shutdown_recorded_witness:
  "shutdown_node default_config (calm\<lparr>ssh_shutdown := \<lambda>i. Completed 255\<rparr>) ''pi5-01'' initial =
     (True, initial\<lparr>calls := calls initial @ [Shutdown ''pi5-01''],
                    nodes_shutdown := insert ''pi5-01'' (nodes_shutdown initial)\<rparr>)
   \<and> ''pi5-01'' \<in> nodes_shutdown (polls default_config calm [200, 500]
        (snd (shutdown_node default_config (calm\<lparr>ssh_shutdown := \<lambda>i. Completed 255\<rparr>) ''pi5-01'' initial)))
   \<and> Shutdown ''pi5-01'' \<notin> set (new_calls
        (snd (shutdown_node default_config (calm\<lparr>ssh_shutdown := \<lambda>i. Completed 255\<rparr>) ''pi5-01'' initial))
        (polls default_config calm [200, 500]
          (snd (shutdown_node default_config (calm\<lparr>ssh_shutdown := \<lambda>i. Completed 255\<rparr>) ''pi5-01'' initial))))"
proof -
  have h: "\<not> dry_run default_config" "\<not> skip_shutdown default_config"
    "read_node (calm\<lparr>ssh_shutdown := \<lambda>i. Completed 255\<rparr>) (length (calls initial))
       = Some [(''Hostname'', ''node''), (''InternalIP'', ''10.0.0.7'')]"
    "internal_ip [(''Hostname'', ''node''), (''InternalIP'', ''10.0.0.7'')] = Some ''10.0.0.7''"
    "''10.0.0.7'' \<noteq> []"
    "ssh_shutdown (calm\<lparr>ssh_shutdown := \<lambda>i. Completed 255\<rparr>) (length (calls initial)) = Completed 255"
    by (simp_all add: default_config_def calm_def)
  show ?thesis
    by (rule completed_shutdown_recorded [OF h])
qed

end
